theory Spec2Isabelle
  imports Main "HOL-Library.Sublist" "HOL-Library.Monad_Syntax"
begin

section \<open>JavaScript values\<close>

text \<open>
  The parsers of \<^verbatim>\<open>ai-parser.js\<close> work on whatever \<^verbatim>\<open>JSON.parse\<close> returns, and they
  read it with the untyped operators of JavaScript (\<^verbatim>\<open>||\<close>, \<^verbatim>\<open>?.\<close>, \<^verbatim>\<open>===\<close>, \<^verbatim>\<open>typeof\<close>), so
  the embedding keeps the values untyped too.

  \<^item> A string is a list of \<^typ>\<open>char\<close>, a \<^typ>\<open>char\<close> being a code unit below 256 (ASCII
    and Latin-1). White space, the character classes and the case-insensitive matching
    of the regular expressions are exact on them; so is upper-casing, but for three code
    units named at \<open>toUpperCase_char\<close>. Code units from 256 on are not modelled.
  \<^item> A number is kept as the decimal rendering that \<^verbatim>\<open>Number.prototype.toString\<close> gives
    it. The program only tests numbers for truthiness, compares them with \<^verbatim>\<open>===\<close> and
    converts them to strings, and all three are determined by that rendering (both zeros
    render as \<^verbatim>\<open>0\<close>, are equal and are falsy; \<^verbatim>\<open>JSON.parse\<close> never yields \<^verbatim>\<open>NaN\<close>).
  \<^item> An object is the list of its own properties in enumeration order, looked up from
    the front.
  \<^item> A thrown exception is \<open>None\<close> in the \<open>option\<close> monad. Every exception the parsers
    can raise is caught by a handler that does not look at its kind.
  \<^item> Resource limits of the engine (stack depth, string length) are not modelled.
\<close>

datatype jsval =
    JUndefined
  | JNull
  | JBool bool
  | JNum string
  | JStr string
  | JArr "jsval list"
  | JObj "(string \<times> jsval) list"

text \<open>\<^verbatim>\<open>!v\<close> is false exactly on the truthy values.\<close>

fun truthy :: "jsval \<Rightarrow> bool" where
  "truthy JUndefined = False"
| "truthy JNull = False"
| "truthy (JBool b) = b"
| "truthy (JNum n) = (n \<noteq> ''0'')"
| "truthy (JStr s) = (s \<noteq> [])"
| "truthy (JArr xs) = True"
| "truthy (JObj kvs) = True"

fun nullish :: "jsval \<Rightarrow> bool" where
  "nullish JUndefined = True"
| "nullish JNull = True"
| "nullish v = False"

text \<open>\<^verbatim>\<open>a || b\<close>, with \<open>b\<close> already evaluated (used where \<open>b\<close> cannot throw).\<close>

definition js_or :: "jsval \<Rightarrow> jsval \<Rightarrow> jsval" where
  "js_or a b = (if truthy a then a else b)"

fun isArray :: "jsval \<Rightarrow> bool" where
  "isArray (JArr xs) = True"
| "isArray v = False"

text \<open>\<^verbatim>\<open>typeof v === 'object'\<close>: true of objects, arrays and \<^verbatim>\<open>null\<close>.\<close>

fun typeof_object :: "jsval \<Rightarrow> bool" where
  "typeof_object JNull = True"
| "typeof_object (JArr xs) = True"
| "typeof_object (JObj kvs) = True"
| "typeof_object v = False"

text \<open>
  \<^verbatim>\<open>a === b\<close>. Two arrays or objects are equal only if they are the same reference; the
  program compares values taken from different places of one parsed tree, which are
  never the same reference.
\<close>

fun strict_eq :: "jsval \<Rightarrow> jsval \<Rightarrow> bool" where
  "strict_eq JUndefined JUndefined = True"
| "strict_eq JNull JNull = True"
| "strict_eq (JBool a) (JBool b) = (a = b)"
| "strict_eq (JNum a) (JNum b) = (a = b)"
| "strict_eq (JStr a) (JStr b) = (a = b)"
| "strict_eq a b = False"

subsection \<open>Strings\<close>

text \<open>
  \<^verbatim>\<open>toUpperCase\<close> on one code unit below 256: the ASCII letters, and the accented letters
  of Latin-1 (\<^verbatim>\<open>0xE0\<close> to \<^verbatim>\<open>0xFE\<close> without the division sign \<^verbatim>\<open>0xF7\<close>), whose capitals lie
  \<^verbatim>\<open>0x20\<close> below. No other code unit below 256 changes, except three whose capital is not
  one code unit below 256 and which are left alone here: the micro sign \<^verbatim>\<open>0xB5\<close> and
  \<^verbatim>\<open>0xFF\<close> (capitals beyond 255) and the sharp s \<^verbatim>\<open>0xDF\<close> (capital \<^verbatim>\<open>SS\<close>). A statement
  about upper-cased text that is returned excludes the three (\<open>upper_in_range\<close>).
\<close>

definition toUpperCase_char :: "char \<Rightarrow> char" where
  "toUpperCase_char c =
     (case map_of
             (zip (''abcdefghijklmnopqrstuvwxyz'' @
                   [CHR 0xE0, CHR 0xE1, CHR 0xE2, CHR 0xE3, CHR 0xE4, CHR 0xE5, CHR 0xE6, CHR 0xE7,
                    CHR 0xE8, CHR 0xE9, CHR 0xEA, CHR 0xEB, CHR 0xEC, CHR 0xED, CHR 0xEE, CHR 0xEF,
                    CHR 0xF0, CHR 0xF1, CHR 0xF2, CHR 0xF3, CHR 0xF4, CHR 0xF5, CHR 0xF6, CHR 0xF8,
                    CHR 0xF9, CHR 0xFA, CHR 0xFB, CHR 0xFC, CHR 0xFD, CHR 0xFE])
                  (''ABCDEFGHIJKLMNOPQRSTUVWXYZ'' @
                   [CHR 0xC0, CHR 0xC1, CHR 0xC2, CHR 0xC3, CHR 0xC4, CHR 0xC5, CHR 0xC6, CHR 0xC7,
                    CHR 0xC8, CHR 0xC9, CHR 0xCA, CHR 0xCB, CHR 0xCC, CHR 0xCD, CHR 0xCE, CHR 0xCF,
                    CHR 0xD0, CHR 0xD1, CHR 0xD2, CHR 0xD3, CHR 0xD4, CHR 0xD5, CHR 0xD6, CHR 0xD8,
                    CHR 0xD9, CHR 0xDA, CHR 0xDB, CHR 0xDC, CHR 0xDD, CHR 0xDE])) c of
        Some u \<Rightarrow> u
      | None \<Rightarrow> c)"

definition upper_in_range :: "char \<Rightarrow> bool" where
  "upper_in_range c = (c \<notin> set [CHR 0xB5, CHR 0xDF, CHR 0xFF])"

definition toUpperCase :: "string \<Rightarrow> string" where
  "toUpperCase s = map toUpperCase_char s"

text \<open>\<^verbatim>\<open>s.includes(p)\<close>: \<open>p\<close> occurs in \<open>s\<close> as a contiguous substring.\<close>

definition js_includes :: "string \<Rightarrow> string \<Rightarrow> bool" where
  "js_includes s p = sublist p s"

definition is_digit :: "char \<Rightarrow> bool" where
  "is_digit c = (c \<in> set ''0123456789'')"

text \<open>The decimal rendering of an array index or a length.\<close>

definition digit_char :: "nat \<Rightarrow> char" where
  "digit_char d = ''0123456789'' ! (d mod 10)"

fun show_nat :: "nat \<Rightarrow> string" where
  "show_nat n = (if n < 10 then [digit_char n] else show_nat (n div 10) @ [digit_char n])"

declare show_nat.simps [simp del]

fun join_comma :: "string list \<Rightarrow> string" where
  "join_comma [] = []"
| "join_comma [s] = s"
| "join_comma (s # t # ss) = s @ '','' @ join_comma (t # ss)"

subsection \<open>Property access\<close>

text \<open>
  A property key that is a canonical array index: \<^verbatim>\<open>0\<close>, or digits with no leading zero.
\<close>

definition index_of_key :: "string \<Rightarrow> nat option" where
  "index_of_key k =
     (if k \<noteq> [] \<and> list_all is_digit k \<and> (k = ''0'' \<or> hd k \<noteq> CHR ''0'')
      then Some (foldl (\<lambda>n c. 10 * n + (of_char c - of_char (CHR ''0''))) 0 k)
      else None)"

text \<open>
  \<open>js_prop v k\<close> is \<^verbatim>\<open>v[k]\<close> for a \<open>v\<close> that is neither \<^verbatim>\<open>null\<close> nor \<^verbatim>\<open>undefined\<close>: the own
  property if there is one, \<^verbatim>\<open>undefined\<close> otherwise. Inherited properties are left out:
  the only inherited names the program reads are the methods \<^verbatim>\<open>toString\<close>, \<^verbatim>\<open>split\<close>,
  \<^verbatim>\<open>find\<close> and \<^verbatim>\<open>forEach\<close>, and each of them is modelled where it is called.
\<close>

fun js_prop :: "jsval \<Rightarrow> string \<Rightarrow> jsval" where
  "js_prop (JObj kvs) k = (case map_of kvs k of Some v \<Rightarrow> v | None \<Rightarrow> JUndefined)"
| "js_prop (JArr xs) k =
     (case index_of_key k of
        Some i \<Rightarrow> if i < length xs then xs ! i else JUndefined
      | None \<Rightarrow> if k = ''length'' then JNum (show_nat (length xs)) else JUndefined)"
| "js_prop (JStr s) k =
     (case index_of_key k of
        Some i \<Rightarrow> if i < length s then JStr [s ! i] else JUndefined
      | None \<Rightarrow> if k = ''length'' then JNum (show_nat (length s)) else JUndefined)"
| "js_prop v k = JUndefined"

text \<open>\<^verbatim>\<open>v.k\<close>: a \<^verbatim>\<open>TypeError\<close> when \<open>v\<close> is \<^verbatim>\<open>null\<close> or \<^verbatim>\<open>undefined\<close>.\<close>

definition js_get :: "jsval \<Rightarrow> string \<Rightarrow> jsval option" where
  "js_get v k = (if nullish v then None else Some (js_prop v k))"

text \<open>\<^verbatim>\<open>v?.k\<close>: \<^verbatim>\<open>undefined\<close> when \<open>v\<close> is \<^verbatim>\<open>null\<close> or \<^verbatim>\<open>undefined\<close>.\<close>

definition js_get_opt :: "jsval \<Rightarrow> string \<Rightarrow> jsval" where
  "js_get_opt v k = (if nullish v then JUndefined else js_prop v k)"

text \<open>\<^verbatim>\<open>Object.keys(v)\<close> for a \<open>v\<close> that is neither \<^verbatim>\<open>null\<close> nor \<^verbatim>\<open>undefined\<close>.\<close>

fun Object_keys :: "jsval \<Rightarrow> string list" where
  "Object_keys (JObj kvs) = map fst kvs"
| "Object_keys (JArr xs) = map show_nat [0..<length xs]"
| "Object_keys (JStr s) = map show_nat [0..<length s]"
| "Object_keys v = []"

subsection \<open>Conversion to string\<close>

text \<open>
  \<^verbatim>\<open>v.toString()\<close>. On an array it is \<^verbatim>\<open>join(',')\<close>, which renders \<^verbatim>\<open>null\<close> and
  \<^verbatim>\<open>undefined\<close> elements as the empty string and converts the others recursively. An
  object parsed from JSON has no callable own property, so an own \<^verbatim>\<open>toString\<close> key
  shadows the inherited method with something that cannot be called: a \<^verbatim>\<open>TypeError\<close>.
\<close>

fun js_toString :: "jsval \<Rightarrow> string option" where
  "js_toString JUndefined = None"
| "js_toString JNull = None"
| "js_toString (JBool b) = Some (if b then ''true'' else ''false'')"
| "js_toString (JNum n) = Some n"
| "js_toString (JStr s) = Some s"
| "js_toString (JArr xs) =
     map_option join_comma
       (those (map (\<lambda>x. if nullish x then Some [] else js_toString x) xs))"
| "js_toString (JObj kvs) =
     (if ''toString'' \<in> set (map fst kvs) then None else Some ''[object Object]'')"

section \<open>Severity classifier\<close>

text \<open>\<^verbatim>\<open>normalizeSeverity\<close>; \<open>None\<close> when \<^verbatim>\<open>severity.toString()\<close> throws.\<close>

definition normalizeSeverity :: "jsval \<Rightarrow> string option" where
  "normalizeSeverity severity =
     (if \<not> truthy severity then Some ''UNKNOWN''
      else do {
        t \<leftarrow> js_toString severity;
        let s = toUpperCase t;
        if js_includes s ''CRITICAL'' \<or> js_includes s ''CRIT'' then Some ''CRITICAL''
        else if js_includes s ''HIGH'' then Some ''HIGH''
        else if js_includes s ''MEDIUM'' \<or> js_includes s ''MED'' then Some ''MEDIUM''
        else if js_includes s ''LOW'' then Some ''LOW''
        else if js_includes s ''INFO'' then Some ''INFO''
        else Some s
      })"

text \<open>
  The classifier as section 4.1 of the specification words it: an ordered list of
  candidates, each a group of substrings with the level it stands for; the first group
  with a substring that occurs in the upper-cased input decides.
\<close>

definition severity_candidates :: "(string list \<times> string) list" where
  "severity_candidates =
     [([''CRITICAL'', ''CRIT''], ''CRITICAL''),
      ([''HIGH''], ''HIGH''),
      ([''MEDIUM'', ''MED''], ''MEDIUM''),
      ([''LOW''], ''LOW''),
      ([''INFO''], ''INFO'')]"

definition classify_spec :: "string \<Rightarrow> string" where
  "classify_spec raw =
     (if raw = [] then ''UNKNOWN''
      else case find (\<lambda>(pats, lvl). list_ex (\<lambda>p. sublist p (toUpperCase raw)) pats)
                  severity_candidates of
             Some (pats, lvl) \<Rightarrow> lvl
           | None \<Rightarrow> toUpperCase raw)"

section \<open>Canonical records and control flow\<close>

text \<open>
  The object literal every parser pushes. A field holds whatever value the expression
  of the source evaluates to, which need not be a string.
\<close>

record VulnerabilityRecord =
  id_v :: jsval
  name_v :: jsval
  severity_v :: jsval
  file_v :: jsval
  description_v :: jsval
  recommendation_v :: jsval

text \<open>
  \<^verbatim>\<open>a || b\<close> where either side may throw: \<open>b\<close> is evaluated only if \<open>a\<close> is falsy.
\<close>

definition or_else :: "jsval option \<Rightarrow> jsval option \<Rightarrow> jsval option" where
  "or_else a b = (case a of None \<Rightarrow> None | Some x \<Rightarrow> if truthy x then Some x else b)"

text \<open>\<^verbatim>\<open>v.k1?.k2\<close>\<close>

definition js_get_then_opt :: "jsval \<Rightarrow> string \<Rightarrow> string \<Rightarrow> jsval option" where
  "js_get_then_opt v k1 k2 = do { m \<leftarrow> js_get v k1; Some (js_get_opt m k2) }"

text \<open>
  \<^verbatim>\<open>xs.forEach(cb)\<close> for a callback that updates the array \<^verbatim>\<open>vulnerabilities\<close> (the state
  \<open>s\<close>) and may throw, which ends the iteration.
\<close>

fun forEach :: "'a list \<Rightarrow> ('a \<Rightarrow> 's \<Rightarrow> 's option) \<Rightarrow> 's \<Rightarrow> 's option" where
  "forEach [] cb s = Some s"
| "forEach (x # xs) cb s = (case cb x s of None \<Rightarrow> None | Some s' \<Rightarrow> forEach xs cb s')"

text \<open>\<^verbatim>\<open>xs.find(p)\<close>: the first element on which \<open>p\<close> holds, later elements are not visited.\<close>

fun js_find :: "(jsval \<Rightarrow> bool option) \<Rightarrow> jsval list \<Rightarrow> jsval option" where
  "js_find p [] = Some JUndefined"
| "js_find p (x # xs) =
     (case p x of None \<Rightarrow> None | Some b \<Rightarrow> if b then Some x else js_find p xs)"

fun elements :: "jsval \<Rightarrow> jsval list" where
  "elements (JArr xs) = xs"
| "elements v = []"

section \<open>SARIF parser\<close>

text \<open>
  \<^verbatim>\<open>run.tool?.driver?.rules?.find(r => r.id === result.ruleId)\<close>. A \<^verbatim>\<open>rules\<close> value that is
  neither nullish nor an array has no callable \<^verbatim>\<open>find\<close>: a \<^verbatim>\<open>TypeError\<close>.
\<close>

definition find_rule :: "jsval \<Rightarrow> jsval \<Rightarrow> jsval option" where
  "find_rule run result = do {
     tool \<leftarrow> js_get run ''tool'';
     let rules = js_get_opt (js_get_opt tool ''driver'') ''rules'';
     if nullish rules then Some JUndefined
     else if isArray rules then
       js_find (\<lambda>r. do {
                  a \<leftarrow> js_get r ''id'';
                  b \<leftarrow> js_get result ''ruleId'';
                  Some (strict_eq a b)
                }) (elements rules)
     else None
   }"

text \<open>The body of the callback of \<^verbatim>\<open>run.results.forEach\<close>: the record it pushes.\<close>

definition sarif_result :: "jsval \<Rightarrow> jsval \<Rightarrow> VulnerabilityRecord option" where
  "sarif_result run result = do {
     found \<leftarrow> find_rule run result;
     let rule = js_or found (JObj []);
     locations \<leftarrow> js_get result ''locations'';
     let location =
       js_or (js_get_opt (js_get_opt (js_get_opt (js_get_opt locations ''0'')
                ''physicalLocation'') ''artifactLocation'') ''uri'')
             (JStr ''unknown'');
     i \<leftarrow> or_else (js_get result ''ruleId'') (Some (JStr ''N/A''));
     n \<leftarrow> or_else (js_get rule ''name'')
            (or_else (js_get_then_opt result ''message'' ''text'')
               (Some (JStr ''Unknown vulnerability'')));
     level \<leftarrow> (case js_get result ''level'' of
                 None \<Rightarrow> None
               | Some l \<Rightarrow> if truthy l then Some l
                          else js_get_then_opt rule ''defaultConfiguration'' ''level'');
     s \<leftarrow> normalizeSeverity level;
     d \<leftarrow> or_else (js_get_then_opt rule ''fullDescription'' ''text'')
            (or_else (js_get_then_opt rule ''shortDescription'' ''text'')
               (or_else (js_get_then_opt result ''message'' ''text'')
                  (Some (JStr ''No description''))));
     r \<leftarrow> or_else (js_get_then_opt rule ''help'' ''text'')
            (or_else (js_get rule ''helpUri'')
               (Some (JStr ''No recommendation available'')));
     Some \<lparr> id_v = i, name_v = n, severity_v = JStr s, file_v = location,
            description_v = d, recommendation_v = r \<rparr>
   }"

text \<open>The body of the \<^verbatim>\<open>try\<close> block of \<^verbatim>\<open>parseSARIF\<close>, on the parsed document.\<close>

definition parseSARIF_try :: "jsval \<Rightarrow> VulnerabilityRecord list option" where
  "parseSARIF_try sarif = do {
     runs \<leftarrow> js_get sarif ''runs'';
     if truthy runs \<and> isArray runs then
       forEach (elements runs) (\<lambda>run vulnerabilities. do {
         results \<leftarrow> js_get run ''results'';
         if truthy results \<and> isArray results then
           forEach (elements results) (\<lambda>result vulnerabilities. do {
             v \<leftarrow> sarif_result run result;
             Some (vulnerabilities @ [v])
           }) vulnerabilities
         else Some vulnerabilities
       }) []
     else Some []
   }"

text \<open>
  \<^verbatim>\<open>parseSARIF\<close>. \<^verbatim>\<open>JSON.parse\<close> belongs to the runtime and is a parameter: \<open>None\<close> is its
  \<^verbatim>\<open>SyntaxError\<close>. The \<^verbatim>\<open>catch\<close> clause turns every exception into the empty array.
\<close>

definition parseSARIF :: "(string \<Rightarrow> jsval option) \<Rightarrow> string \<Rightarrow> VulnerabilityRecord list" where
  "parseSARIF JSON_parse content =
     (case do { sarif \<leftarrow> JSON_parse content; parseSARIF_try sarif } of
        Some vulnerabilities \<Rightarrow> vulnerabilities
      | None \<Rightarrow> [])"

section \<open>Regular expressions\<close>

text \<open>
  A literal of a pattern with the \<^verbatim>\<open>i\<close> flag matches at the front of \<open>s\<close> if the two agree
  after canonicalisation, which on ASCII is upper-casing.
\<close>

definition prefix_ci :: "string \<Rightarrow> string \<Rightarrow> bool" where
  "prefix_ci lit s =
     (length lit \<le> length s \<and> toUpperCase (take (length lit) s) = toUpperCase lit)"

text \<open>
  \<^verbatim>\<open>/CWE-(\d+)/gi\<close> tried at the front of \<open>s\<close>: the captured digits (the quantifier is
  greedy and nothing follows it) and the text after the match.
\<close>

definition match_CWE_at :: "string \<Rightarrow> (string \<times> string) option" where
  "match_CWE_at s =
     (if prefix_ci ''CWE-'' s \<and> takeWhile is_digit (drop 4 s) \<noteq> []
      then Some (takeWhile is_digit (drop 4 s), dropWhile is_digit (drop 4 s))
      else None)"

text \<open>
  \<^verbatim>\<open>/(CRITICAL|HIGH|MEDIUM|LOW)/i\<close> tried at the front of \<open>s\<close>, the alternatives in their
  order: the captured word as the text has it, and the text after the match.
\<close>

definition match_severity_at :: "string \<Rightarrow> (string \<times> string) option" where
  "match_severity_at s =
     (case find (\<lambda>w. prefix_ci w s) [''CRITICAL'', ''HIGH'', ''MEDIUM'', ''LOW''] of
        Some w \<Rightarrow> Some (take (length w) s, drop (length w) s)
      | None \<Rightarrow> None)"

text \<open>
  \<^verbatim>\<open>/CVE-\d{4}-\d+/i\<close> tried at the front of \<open>s\<close>: the matched text.
\<close>

definition match_CVE_at :: "string \<Rightarrow> string option" where
  "match_CVE_at s =
     (if prefix_ci ''CVE-'' s
         \<and> length (take 4 (drop 4 s)) = 4 \<and> list_all is_digit (take 4 (drop 4 s))
         \<and> prefix ''-'' (drop 8 s)
         \<and> takeWhile is_digit (drop 9 s) \<noteq> []
      then Some (take (9 + length (takeWhile is_digit (drop 9 s))) s)
      else None)"

lemma match_CWE_at_shorter:
  "match_CWE_at s = Some (ds, rest) \<Longrightarrow> length rest < length s"
proof -
  assume m: "match_CWE_at s = Some (ds, rest)"
  then have "prefix_ci ''CWE-'' s" and r: "rest = dropWhile is_digit (drop 4 s)"
    by (auto simp: match_CWE_at_def split: if_splits)
  then have "4 \<le> length s" by (simp add: prefix_ci_def)
  moreover have "length rest \<le> length (drop 4 s)"
    unfolding r by (rule length_dropWhile_le)
  ultimately show ?thesis by simp
qed

lemma match_severity_at_shorter:
  "match_severity_at s = Some (w, rest) \<Longrightarrow> length rest < length s"
  by (auto simp: match_severity_at_def prefix_ci_def split: if_splits)

text \<open>
  \<^verbatim>\<open>Array.from(content.matchAll(re))\<close> for a global pattern: the matches from left to
  right, each search starting where the last match ended, and one character further
  where the pattern does not match.
\<close>

function matchAll_CWE :: "string \<Rightarrow> string list" where
  "matchAll_CWE [] = []"
| "matchAll_CWE (c # cs) =
     (case match_CWE_at (c # cs) of
        Some (ds, rest) \<Rightarrow> ds # matchAll_CWE rest
      | None \<Rightarrow> matchAll_CWE cs)"
  by pat_completeness auto
termination
  by (relation "measure length") (auto dest: match_CWE_at_shorter)

function matchAll_severity :: "string \<Rightarrow> string list" where
  "matchAll_severity [] = []"
| "matchAll_severity (c # cs) =
     (case match_severity_at (c # cs) of
        Some (w, rest) \<Rightarrow> w # matchAll_severity rest
      | None \<Rightarrow> matchAll_severity cs)"
  by pat_completeness auto
termination
  by (relation "measure length") (auto dest: match_severity_at_shorter)

text \<open>\<^verbatim>\<open>line.match(re)\<close> for a pattern without the \<^verbatim>\<open>g\<close> flag: the leftmost match.\<close>

fun match_CVE :: "string \<Rightarrow> string option" where
  "match_CVE [] = None"
| "match_CVE (c # cs) =
     (case match_CVE_at (c # cs) of Some m \<Rightarrow> Some m | None \<Rightarrow> match_CVE cs)"

fun match_severity :: "string \<Rightarrow> string option" where
  "match_severity [] = None"
| "match_severity (c # cs) =
     (case match_severity_at (c # cs) of Some (w, rest) \<Rightarrow> Some w | None \<Rightarrow> match_severity cs)"

section \<open>HTML parser\<close>

text \<open>
  The \<^verbatim>\<open>for\<close> loop of \<^verbatim>\<open>parseHTML\<close>, from index \<open>i\<close> on. \<open>cwes\<close> holds the first capture
  group of each match of the CWE pattern, \<open>severities\<close> that of the severity pattern.
  The function has no \<^verbatim>\<open>try\<close>: an exception of \<^verbatim>\<open>normalizeSeverity\<close> would leave it.
\<close>

function parseHTML_loop ::
  "nat \<Rightarrow> string list \<Rightarrow> string list \<Rightarrow> VulnerabilityRecord list
     \<Rightarrow> VulnerabilityRecord list option" where
  "parseHTML_loop i cwes severities vulnerabilities =
     (if i < min (length cwes) (length severities) then
        (case normalizeSeverity (JStr (severities ! i)) of
           None \<Rightarrow> None
         | Some s \<Rightarrow>
             parseHTML_loop (i + 1) cwes severities
               (vulnerabilities @
                  [\<lparr> id_v = JStr (''CWE-'' @ cwes ! i),
                     name_v = JStr (''Vulnerability CWE-'' @ cwes ! i),
                     severity_v = JStr s,
                     file_v = JStr ''See HTML report'',
                     description_v = JStr ''Extracted from HTML report'',
                     recommendation_v = JStr ''Refer to HTML report for details'' \<rparr>]))
      else Some vulnerabilities)"
  by pat_completeness auto
termination
  by (relation "measure (\<lambda>(i, cwes, severities, vulnerabilities).
                  min (length cwes) (length severities) - i)") auto

declare parseHTML_loop.simps [simp del]

definition parseHTML :: "string \<Rightarrow> VulnerabilityRecord list option" where
  "parseHTML content =
     parseHTML_loop 0 (matchAll_CWE content) (matchAll_severity content) []"

section \<open>SCA parsers\<close>

text \<open>The record pushed for one element of the array shape.\<close>

definition sca_array_record :: "jsval \<Rightarrow> VulnerabilityRecord option" where
  "sca_array_record vuln = do {
     i \<leftarrow> or_else (js_get vuln ''id'') (or_else (js_get vuln ''cve'') (Some (JStr ''N/A'')));
     n \<leftarrow> or_else (js_get vuln ''title'')
            (or_else (js_get vuln ''name'') (Some (JStr ''Unknown vulnerability'')));
     sev \<leftarrow> js_get vuln ''severity'';
     s \<leftarrow> normalizeSeverity sev;
     f \<leftarrow> or_else (js_get vuln ''package'')
            (or_else (js_get vuln ''library'')
               (or_else (js_get vuln ''dependency'') (Some (JStr ''unknown''))));
     d \<leftarrow> or_else (js_get vuln ''description'') (Some (JStr ''No description''));
     r \<leftarrow> or_else (js_get vuln ''recommendation'')
            (or_else (js_get vuln ''fix'') (Some (JStr ''Update to latest version'')));
     Some \<lparr> id_v = i, name_v = n, severity_v = JStr s, file_v = f,
            description_v = d, recommendation_v = r \<rparr>
   }"

text \<open>
  The record pushed for the entry \<open>v\<close> of the \<^verbatim>\<open>via\<close> array of the advisory \<open>vuln\<close> of
  package \<open>pkg\<close> (npm audit shape), once \<^verbatim>\<open>typeof v === 'object'\<close> has let it through.
\<close>

definition sca_via_record :: "string \<Rightarrow> jsval \<Rightarrow> jsval \<Rightarrow> VulnerabilityRecord option" where
  "sca_via_record pkg vuln v = do {
     i \<leftarrow> or_else (js_get v ''cve'') (or_else (js_get v ''id'') (Some (JStr ''N/A'')));
     n \<leftarrow> or_else (js_get v ''title'') (Some (JStr ''Dependency vulnerability''));
     sev \<leftarrow> js_get v ''severity'';
     s \<leftarrow> normalizeSeverity sev;
     d \<leftarrow> or_else (js_get v ''url'') (Some (JStr ''See package for details''));
     fixAvailable \<leftarrow> js_get vuln ''fixAvailable'';
     Some \<lparr> id_v = i, name_v = n, severity_v = JStr s, file_v = JStr pkg,
            description_v = d,
            recommendation_v =
              JStr (if truthy fixAvailable then ''Update available'' else ''No fix available'') \<rparr>
   }"

text \<open>The callback of \<^verbatim>\<open>Object.keys(data.vulnerabilities).forEach\<close>.\<close>

definition sca_package ::
  "jsval \<Rightarrow> string \<Rightarrow> VulnerabilityRecord list \<Rightarrow> VulnerabilityRecord list option" where
  "sca_package vulns pkg vulnerabilities = do {
     vuln \<leftarrow> js_get vulns pkg;
     via \<leftarrow> js_get vuln ''via'';
     if truthy via \<and> isArray via then
       forEach (elements via) (\<lambda>v vulnerabilities.
         if typeof_object v then do {
           r \<leftarrow> sca_via_record pkg vuln v;
           Some (vulnerabilities @ [r])
         } else Some vulnerabilities) vulnerabilities
     else Some vulnerabilities
   }"

text \<open>The body of the \<^verbatim>\<open>try\<close> block of \<^verbatim>\<open>parseSCAJSON\<close>, on the parsed document.\<close>

definition parseSCAJSON_try :: "jsval \<Rightarrow> VulnerabilityRecord list option" where
  "parseSCAJSON_try data = do {
     vulns \<leftarrow> js_get data ''vulnerabilities'';
     if truthy vulns \<and> isArray vulns then
       forEach (elements vulns) (\<lambda>vuln vulnerabilities. do {
         r \<leftarrow> sca_array_record vuln;
         Some (vulnerabilities @ [r])
       }) []
     else if truthy vulns then
       forEach (Object_keys vulns) (sca_package vulns) []
     else Some []
   }"

definition parseSCAJSON :: "(string \<Rightarrow> jsval option) \<Rightarrow> string \<Rightarrow> VulnerabilityRecord list" where
  "parseSCAJSON JSON_parse content =
     (case do { data \<leftarrow> JSON_parse content; parseSCAJSON_try data } of
        Some vulnerabilities \<Rightarrow> vulnerabilities
      | None \<Rightarrow> [])"

text \<open>\<^verbatim>\<open>content.split('\n')\<close>\<close>

fun split_lines :: "string \<Rightarrow> string list" where
  "split_lines [] = [[]]"
| "split_lines (c # cs) =
     (if c = CHR 0x0A then [] # split_lines cs
      else (case split_lines cs of
              l # ls \<Rightarrow> (c # l) # ls
            | [] \<Rightarrow> [[c]]))"

text \<open>
  \<^verbatim>\<open>line.trim()\<close>: white space and line terminators are removed at both ends. Below 256
  these are the tabulator, line feed, vertical tabulator, form feed, carriage return, the
  space and the no-break space.
\<close>

definition is_space :: "char \<Rightarrow> bool" where
  "is_space c =
     (c \<in> set [CHR 0x09, CHR 0x0A, CHR 0x0B, CHR 0x0C, CHR 0x0D, CHR 0x20, CHR 0xA0])"

definition trim :: "string \<Rightarrow> string" where
  "trim s = rev (dropWhile is_space (rev (dropWhile is_space s)))"

text \<open>The callback of \<^verbatim>\<open>lines.forEach\<close> in \<^verbatim>\<open>parseSCATXT\<close>.\<close>

definition scatxt_line ::
  "string \<Rightarrow> VulnerabilityRecord list \<Rightarrow> VulnerabilityRecord list option" where
  "scatxt_line line vulnerabilities =
     (let cveMatch = match_CVE line; severityMatch = match_severity line in
      case cveMatch of
        Some cve \<Rightarrow> do {
          s \<leftarrow> (case severityMatch of
                  Some w \<Rightarrow> normalizeSeverity (JStr w)
                | None \<Rightarrow> Some ''UNKNOWN'');
          Some (vulnerabilities @
                  [\<lparr> id_v = JStr cve,
                     name_v = JStr (''Vulnerability '' @ cve),
                     severity_v = JStr s,
                     file_v = JStr ''See TXT report'',
                     description_v = JStr (trim line),
                     recommendation_v = JStr ''Update affected package'' \<rparr>])
        }
      | None \<Rightarrow> Some vulnerabilities)"

definition parseSCATXT :: "string \<Rightarrow> VulnerabilityRecord list option" where
  "parseSCATXT content = forEach (split_lines content) scatxt_line []"

section \<open>DAST parser\<close>

text \<open>
  \<^verbatim>\<open>v?.split(' ')[0]\<close>: \<^verbatim>\<open>undefined\<close> for a nullish \<open>v\<close>, the text before the first space
  for a string, and a \<^verbatim>\<open>TypeError\<close> for anything else, which has no callable \<^verbatim>\<open>split\<close>.
\<close>

fun split_space_first :: "jsval \<Rightarrow> jsval option" where
  "split_space_first JUndefined = Some JUndefined"
| "split_space_first JNull = Some JUndefined"
| "split_space_first (JStr s) = Some (JStr (takeWhile (\<lambda>c. c \<noteq> CHR '' '') s))"
| "split_space_first v = None"

definition dast_alert_record :: "jsval \<Rightarrow> jsval \<Rightarrow> VulnerabilityRecord option" where
  "dast_alert_record site alert = do {
     i \<leftarrow> or_else (js_get alert ''pluginid'') (or_else (js_get alert ''id'') (Some (JStr ''N/A'')));
     n \<leftarrow> or_else (js_get alert ''name'')
            (or_else (js_get alert ''alert'') (Some (JStr ''Unknown vulnerability'')));
     riskdesc \<leftarrow> js_get alert ''riskdesc'';
     first \<leftarrow> split_space_first riskdesc;
     risk \<leftarrow> (if truthy first then Some first else js_get alert ''risk'');
     s \<leftarrow> normalizeSeverity risk;
     f \<leftarrow> or_else (js_get alert ''url'') (or_else (js_get site ''name'') (Some (JStr ''unknown'')));
     d \<leftarrow> or_else (js_get alert ''desc'')
            (or_else (js_get alert ''description'') (Some (JStr ''No description'')));
     r \<leftarrow> or_else (js_get alert ''solution'')
            (or_else (js_get alert ''recommendation'')
               (Some (JStr ''No recommendation available'')));
     Some \<lparr> id_v = i, name_v = n, severity_v = JStr s, file_v = f,
            description_v = d, recommendation_v = r \<rparr>
   }"

definition dast_generic_record :: "jsval \<Rightarrow> VulnerabilityRecord option" where
  "dast_generic_record vuln = do {
     i \<leftarrow> or_else (js_get vuln ''id'') (Some (JStr ''N/A''));
     n \<leftarrow> or_else (js_get vuln ''name'')
            (or_else (js_get vuln ''title'') (Some (JStr ''Unknown vulnerability'')));
     sev \<leftarrow> js_get vuln ''severity'';
     s \<leftarrow> normalizeSeverity sev;
     f \<leftarrow> or_else (js_get vuln ''url'')
            (or_else (js_get vuln ''endpoint'') (Some (JStr ''unknown'')));
     d \<leftarrow> or_else (js_get vuln ''description'') (Some (JStr ''No description''));
     r \<leftarrow> or_else (js_get vuln ''recommendation'')
            (or_else (js_get vuln ''solution'')
               (Some (JStr ''No recommendation available'')));
     Some \<lparr> id_v = i, name_v = n, severity_v = JStr s, file_v = f,
            description_v = d, recommendation_v = r \<rparr>
   }"

definition parseDASTJSON_try :: "jsval \<Rightarrow> VulnerabilityRecord list option" where
  "parseDASTJSON_try data = do {
     site_list \<leftarrow> js_get data ''site'';
     if truthy site_list \<and> isArray site_list then
       forEach (elements site_list) (\<lambda>site vulnerabilities. do {
         alerts \<leftarrow> js_get site ''alerts'';
         if truthy alerts \<and> isArray alerts then
           forEach (elements alerts) (\<lambda>alert vulnerabilities. do {
             r \<leftarrow> dast_alert_record site alert;
             Some (vulnerabilities @ [r])
           }) vulnerabilities
         else Some vulnerabilities
       }) []
     else do {
       vulns \<leftarrow> js_get data ''vulnerabilities'';
       if truthy vulns \<and> isArray vulns then
         forEach (elements vulns) (\<lambda>vuln vulnerabilities. do {
           r \<leftarrow> dast_generic_record vuln;
           Some (vulnerabilities @ [r])
         }) []
       else Some []
     }
   }"

definition parseDASTJSON :: "(string \<Rightarrow> jsval option) \<Rightarrow> string \<Rightarrow> VulnerabilityRecord list" where
  "parseDASTJSON JSON_parse content =
     (case do { data \<leftarrow> JSON_parse content; parseDASTJSON_try data } of
        Some vulnerabilities \<Rightarrow> vulnerabilities
      | None \<Rightarrow> [])"

section \<open>Tool aggregators\<close>

text \<open>
  The aggregators read the file system through \<^verbatim>\<open>fs.existsSync\<close>, \<^verbatim>\<open>fs.readdirSync\<close> and
  \<^verbatim>\<open>fs.readFileSync\<close>, and build paths with \<^verbatim>\<open>path.join\<close>. They only read, so the file
  system is an environment: what each of these calls answers, an exception (\<open>Inl\<close>)
  included.
\<close>

datatype exn = FsError string | TypeError

record node_fs =
  existsSync :: "string \<Rightarrow> bool"
  readdirSync :: "string \<Rightarrow> exn + string list"
  readFileSync :: "string \<Rightarrow> exn + string"
  path_join :: "string \<Rightarrow> string \<Rightarrow> string"

record ReportFile =
  name_f :: string
  path_f :: string
  content_f :: string

text \<open>\<^verbatim>\<open>names.map(file => ({ name, path, content }))\<close>, which stops at the first failed read.\<close>

fun read_entries :: "node_fs \<Rightarrow> string \<Rightarrow> string list \<Rightarrow> exn + ReportFile list" where
  "read_entries fs dir [] = Inr []"
| "read_entries fs dir (file # rest) =
     (case readFileSync fs (path_join fs dir file) of
        Inl e \<Rightarrow> Inl e
      | Inr text \<Rightarrow>
          (case read_entries fs dir rest of
             Inl e \<Rightarrow> Inl e
           | Inr files \<Rightarrow>
               Inr (\<lparr> name_f = file, path_f = path_join fs dir file, content_f = text \<rparr>
                    # files)))"

definition readFilesFromDirectory :: "node_fs \<Rightarrow> string \<Rightarrow> exn + ReportFile list" where
  "readFilesFromDirectory fs dir =
     (if \<not> existsSync fs dir then Inr []
      else case readdirSync fs dir of
             Inl e \<Rightarrow> Inl e
           | Inr names \<Rightarrow> read_entries fs dir names)"

record ToolResult =
  tool :: string
  vulnerabilities :: "VulnerabilityRecord list"

text \<open>\<^verbatim>\<open>name.endsWith(ext)\<close>\<close>

definition endsWith :: "string \<Rightarrow> string \<Rightarrow> bool" where
  "endsWith name ext = suffix ext name"

text \<open>
  The callbacks of \<^verbatim>\<open>files.forEach\<close> in the three aggregators: the parser is chosen by the
  extension of the file name, a file with another extension is skipped. An exception of
  a parser without a \<^verbatim>\<open>try\<close> block would leave the aggregator as it is. The directory
  is the configured one (\<^verbatim>\<open>SAST_DIR\<close>, \<^verbatim>\<open>SCA_DIR\<close>, \<^verbatim>\<open>DAST_DIR\<close>).
\<close>

definition sast_file ::
  "(string \<Rightarrow> jsval option) \<Rightarrow> ReportFile \<Rightarrow> VulnerabilityRecord list
     \<Rightarrow> VulnerabilityRecord list option" where
  "sast_file JSON_parse file allVulnerabilities =
     (if endsWith (name_f file) ''.sarif'' \<or> endsWith (name_f file) ''.json'' then
        Some (allVulnerabilities @ parseSARIF JSON_parse (content_f file))
      else if endsWith (name_f file) ''.html'' then
        (case parseHTML (content_f file) of
           None \<Rightarrow> None
         | Some vs \<Rightarrow> Some (allVulnerabilities @ vs))
      else Some allVulnerabilities)"

definition sca_file ::
  "(string \<Rightarrow> jsval option) \<Rightarrow> ReportFile \<Rightarrow> VulnerabilityRecord list
     \<Rightarrow> VulnerabilityRecord list option" where
  "sca_file JSON_parse file allVulnerabilities =
     (if endsWith (name_f file) ''.json'' then
        Some (allVulnerabilities @ parseSCAJSON JSON_parse (content_f file))
      else if endsWith (name_f file) ''.txt'' then
        (case parseSCATXT (content_f file) of
           None \<Rightarrow> None
         | Some vs \<Rightarrow> Some (allVulnerabilities @ vs))
      else Some allVulnerabilities)"

definition dast_file ::
  "(string \<Rightarrow> jsval option) \<Rightarrow> ReportFile \<Rightarrow> VulnerabilityRecord list
     \<Rightarrow> VulnerabilityRecord list option" where
  "dast_file JSON_parse file allVulnerabilities =
     (if endsWith (name_f file) ''.json'' then
        Some (allVulnerabilities @ parseDASTJSON JSON_parse (content_f file))
      else Some allVulnerabilities)"

text \<open>
  The shape \<^verbatim>\<open>parseSASTReports\<close>, \<^verbatim>\<open>parseSCAReports\<close> and \<^verbatim>\<open>parseDASTReports\<close> share: read
  the directory, run the step of the category over the files in order, tag the result.
\<close>

definition aggregate ::
  "string \<Rightarrow> (ReportFile \<Rightarrow> VulnerabilityRecord list \<Rightarrow> VulnerabilityRecord list option)
     \<Rightarrow> node_fs \<Rightarrow> string \<Rightarrow> exn + ToolResult" where
  "aggregate category per_file fs dir =
     (case readFilesFromDirectory fs dir of
        Inl e \<Rightarrow> Inl e
      | Inr files \<Rightarrow>
          (case forEach files per_file [] of
             None \<Rightarrow> Inl TypeError
           | Some allVulnerabilities \<Rightarrow>
               Inr \<lparr> tool = category, vulnerabilities = allVulnerabilities \<rparr>))"

definition parseSASTReports :: "(string \<Rightarrow> jsval option) \<Rightarrow> node_fs \<Rightarrow> string \<Rightarrow> exn + ToolResult" where
  "parseSASTReports JSON_parse fs SAST_DIR = aggregate ''SAST'' (sast_file JSON_parse) fs SAST_DIR"

definition parseSCAReports :: "(string \<Rightarrow> jsval option) \<Rightarrow> node_fs \<Rightarrow> string \<Rightarrow> exn + ToolResult" where
  "parseSCAReports JSON_parse fs SCA_DIR = aggregate ''SCA'' (sca_file JSON_parse) fs SCA_DIR"

definition parseDASTReports :: "(string \<Rightarrow> jsval option) \<Rightarrow> node_fs \<Rightarrow> string \<Rightarrow> exn + ToolResult" where
  "parseDASTReports JSON_parse fs DAST_DIR = aggregate ''DAST'' (dast_file JSON_parse) fs DAST_DIR"

section \<open>Notions the statements are made of\<close>

subsection \<open>The iteration as a function of its input\<close>

text \<open>
  A \<^verbatim>\<open>forEach\<close> whose callback only appends to the accumulator computes the
  concatenation of what each element contributes, and fails as soon as one element does.
\<close>

fun collect :: "('a \<Rightarrow> 'b list option) \<Rightarrow> 'a list \<Rightarrow> 'b list option" where
  "collect g [] = Some []"
| "collect g (x # xs) =
     (case g x of None \<Rightarrow> None | Some rs \<Rightarrow> map_option ((@) rs) (collect g xs))"

text \<open>
  What one run, one package and one site contribute: the inner \<^verbatim>\<open>forEach\<close> of the three
  JSON parsers, without the accumulator.
\<close>

definition sarif_run_records :: "jsval \<Rightarrow> VulnerabilityRecord list option" where
  "sarif_run_records run = do {
     results \<leftarrow> js_get run ''results'';
     if truthy results \<and> isArray results
     then those (map (sarif_result run) (elements results))
     else Some []
   }"

definition sca_package_records :: "jsval \<Rightarrow> string \<Rightarrow> VulnerabilityRecord list option" where
  "sca_package_records vulns pkg = do {
     vuln \<leftarrow> js_get vulns pkg;
     via \<leftarrow> js_get vuln ''via'';
     if truthy via \<and> isArray via
     then those (map (sca_via_record pkg vuln) (filter typeof_object (elements via)))
     else Some []
   }"


subsection \<open>Properties of a record\<close>

text \<open>A value that is neither \<^verbatim>\<open>null\<close> nor \<^verbatim>\<open>undefined\<close>.\<close>

fun defined :: "jsval \<Rightarrow> bool" where
  "defined JUndefined = False"
| "defined JNull = False"
| "defined v = True"

fun is_string :: "jsval \<Rightarrow> bool" where
  "is_string (JStr s) = True"
| "is_string v = False"

definition fields_of :: "VulnerabilityRecord \<Rightarrow> jsval list" where
  "fields_of r =
     [id_v r, name_v r, severity_v r, file_v r, description_v r, recommendation_v r]"


definition record_strings :: "VulnerabilityRecord \<Rightarrow> bool" where
  "record_strings r = list_all is_string (fields_of r)"

text \<open>An expression that, if it does not throw, has a truthy value.\<close>

definition truthy_result :: "jsval option \<Rightarrow> bool" where
  "truthy_result x = (case x of None \<Rightarrow> True | Some v \<Rightarrow> truthy v)"

subsection \<open>The records of the text parsers\<close>

text \<open>
  The record \<^verbatim>\<open>parseHTML\<close> makes of a CWE match and a severity word, and the record
  \<^verbatim>\<open>parseSCATXT\<close> makes of a CVE match, a severity and the line.
\<close>

definition html_record :: "string \<Rightarrow> string \<Rightarrow> VulnerabilityRecord" where
  "html_record cwe word =
     \<lparr> id_v = JStr (''CWE-'' @ cwe),
       name_v = JStr (''Vulnerability CWE-'' @ cwe),
       severity_v = JStr (classify_spec word),
       file_v = JStr ''See HTML report'',
       description_v = JStr ''Extracted from HTML report'',
       recommendation_v = JStr ''Refer to HTML report for details'' \<rparr>"

definition txt_record :: "string \<Rightarrow> string \<Rightarrow> string \<Rightarrow> VulnerabilityRecord" where
  "txt_record cve sev line =
     \<lparr> id_v = JStr cve,
       name_v = JStr (''Vulnerability '' @ cve),
       severity_v = JStr sev,
       file_v = JStr ''See TXT report'',
       description_v = JStr (trim line),
       recommendation_v = JStr ''Update affected package'' \<rparr>"

text \<open>What one line contributes.\<close>

definition txt_line_records :: "string \<Rightarrow> VulnerabilityRecord list" where
  "txt_line_records line =
     (case match_CVE line of
        None \<Rightarrow> []
      | Some cve \<Rightarrow>
          [txt_record cve
             (case match_severity line of Some w \<Rightarrow> classify_spec w | None \<Rightarrow> ''UNKNOWN'')
             line])"

subsection \<open>The findings of a document\<close>

text \<open>Every result of a SARIF document with the run it belongs to, in document order.\<close>

definition sarif_pairs :: "jsval \<Rightarrow> (jsval \<times> jsval) list" where
  "sarif_pairs sarif =
     concat (map (\<lambda>run. map (Pair run) (elements (js_get_opt run ''results'')))
                 (elements (js_get_opt sarif ''runs'')))"




text \<open>What a parser sees of a file: its name and its content, not its path.\<close>

definition file_view :: "ReportFile \<Rightarrow> string \<times> string" where
  "file_view file = (name_f file, content_f file)"

subsection \<open>The patterns, declaratively\<close>

text \<open>
  A CVE token as the specification describes it: \<^verbatim>\<open>CVE-\<close> in any case, four digits, a
  dash, one or more digits. A line has one if one of its substrings is one.
\<close>

definition is_cve_token :: "string \<Rightarrow> bool" where
  "is_cve_token t =
     (toUpperCase (take 4 t) = ''CVE-''
      \<and> length (take 4 (drop 4 t)) = 4 \<and> list_all is_digit (take 4 (drop 4 t))
      \<and> take 1 (drop 8 t) = ''-''
      \<and> drop 9 t \<noteq> [] \<and> list_all is_digit (drop 9 t))"


text \<open>A severity word: one of the four words of the pattern, in any case.\<close>

definition is_severity_word :: "string \<Rightarrow> bool" where
  "is_severity_word w = (toUpperCase w \<in> set [''CRITICAL'', ''HIGH'', ''MEDIUM'', ''LOW''])"




subsection \<open>Example inputs\<close>

text \<open>
  Report texts and the values \<^verbatim>\<open>JSON.parse\<close> makes of them: a dependency report with a
  numeric id, the keyed example of the specification, its SARIF example, two keyed
  reports that differ in one \<^verbatim>\<open>null\<close>, and a document without \<^verbatim>\<open>runs\<close>.
\<close>

definition id_number_text :: string where
  \<open>id_number_text = ''{"vulnerabilities":[{"id":123}]}''\<close>

definition id_number_doc :: jsval where
  "id_number_doc = JObj [(''vulnerabilities'', JArr [JObj [(''id'', JNum ''123'')]])]"

definition lodash_text :: string where
  \<open>lodash_text =
     ''{"vulnerabilities":{"lodash":{"via":[{"cve":"CVE-2021-1234","severity":"high"}],"fixAvailable":true}}}''\<close>

definition lodash_advisory :: jsval where
  "lodash_advisory =
     JObj [(''via'', JArr [JObj [(''cve'', JStr ''CVE-2021-1234''),
                                 (''severity'', JStr ''high'')]]),
           (''fixAvailable'', JBool True)]"

definition lodash_doc :: jsval where
  "lodash_doc = JObj [(''vulnerabilities'', JObj [(''lodash'', lodash_advisory)])]"

definition xss_sarif_text :: string where
  \<open>xss_sarif_text =
     ''{"runs":[{"tool":{"driver":{"rules":[{"id":"CWE-79","name":"XSS","help":{"text":"Sanitize input"}}]}},"results":[{"ruleId":"CWE-79","level":"error"}]}]}''\<close>

definition xss_result :: jsval where
  "xss_result = JObj [(''ruleId'', JStr ''CWE-79''), (''level'', JStr ''error'')]"

definition xss_run :: jsval where
  "xss_run =
     JObj [(''tool'',
            JObj [(''driver'',
                   JObj [(''rules'',
                          JArr [JObj [(''id'', JStr ''CWE-79''),
                                      (''name'', JStr ''XSS''),
                                      (''help'', JObj [(''text'', JStr ''Sanitize input'')])]])])]),
           (''results'', JArr [xss_result])]"

definition xss_sarif_doc :: jsval where
  "xss_sarif_doc = JObj [(''runs'', JArr [xss_run])]"

definition null_via_text :: string where
  \<open>null_via_text =
     ''{"vulnerabilities":{"a":{"via":[{"cve":"CVE-2020-1"}]},"b":{"via":[null]}}}''\<close>

definition null_via_doc :: jsval where
  "null_via_doc =
     JObj [(''vulnerabilities'',
            JObj [(''a'', JObj [(''via'', JArr [JObj [(''cve'', JStr ''CVE-2020-1'')]])]),
                  (''b'', JObj [(''via'', JArr [JNull])])])]"

definition empty_via_text :: string where
  \<open>empty_via_text =
     ''{"vulnerabilities":{"a":{"via":[{"cve":"CVE-2020-1"}]},"b":{"via":[]}}}''\<close>

definition empty_via_doc :: jsval where
  "empty_via_doc =
     JObj [(''vulnerabilities'',
            JObj [(''a'', JObj [(''via'', JArr [JObj [(''cve'', JStr ''CVE-2020-1'')]])]),
                  (''b'', JObj [(''via'', JArr [])])])]"

definition no_runs_text :: string where
  \<open>no_runs_text = ''{"version":"2.1.0"}''\<close>

definition no_runs_doc :: jsval where
  "no_runs_doc = JObj [(''version'', JStr ''2.1.0'')]"

definition example_documents :: "(string \<times> jsval) list" where
  "example_documents =
     [(id_number_text, id_number_doc),
      (lodash_text, lodash_doc),
      (xss_sarif_text, xss_sarif_doc),
      (null_via_text, null_via_doc),
      (empty_via_text, empty_via_doc),
      (no_runs_text, no_runs_doc)]"

text \<open>
  \<^verbatim>\<open>JSON.parse\<close> on these texts. No other text is given to it in the examples, apart from
  one that is not JSON.
\<close>

definition example_JSON_parse :: "string \<Rightarrow> jsval option" where
  "example_JSON_parse text = map_of example_documents text"

text \<open>
  A file system for the examples: the one directory \<open>dir\<close>, holding the given regular
  files (name and content), and \<^verbatim>\<open>path.join\<close> on a normalised directory and a plain file
  name.
\<close>

definition report_fs :: "string \<Rightarrow> (string \<times> string) list \<Rightarrow> node_fs" where
  "report_fs dir files =
     \<lparr> existsSync = (\<lambda>p. p = dir),
       readdirSync = (\<lambda>p. if p = dir then Inr (map fst files) else Inl (FsError ''ENOTDIR'')),
       readFileSync = (\<lambda>p. case find (\<lambda>(n, text). p = dir @ ''/'' @ n) files of
                              Some (n, text) \<Rightarrow> Inr text
                            | None \<Rightarrow> Inl (FsError ''ENOENT'')),
       path_join = (\<lambda>d f. d @ ''/'' @ f) \<rparr>"

definition audit_files :: "(string \<times> string) list" where
  "audit_files =
     [(''audit.txt'', ''Found CVE-2022-9999 severity HIGH in module X''),
      (''notes.md'', ''CVE-2000-1 is not read from here'')]"

section \<open>Lemmas\<close>

subsection \<open>Iteration\<close>

lemma append_Nil_fun: "(@) [] = (\<lambda>x. x)"
  by (rule ext) simp

lemma append_single_fun: "(@) [v] = (#) v"
  by (rule ext) simp

lemma forEach_collect:
  assumes "\<And>x acc. cb x acc = map_option ((@) acc) (g x)"
  shows "forEach xs cb acc = map_option ((@) acc) (collect g xs)"
proof (induction xs arbitrary: acc)
  case Nil
  show ?case by simp
next
  case (Cons x xs)
  have step: "cb x acc = map_option ((@) acc) (g x)" by (rule assms)
  show ?case
    by (cases "g x"; cases "collect g xs") (simp_all add: step Cons.IH)
qed

lemma forEach_collect_Nil:
  assumes "\<And>x acc. cb x acc = map_option ((@) acc) (g x)"
  shows "forEach xs cb [] = collect g xs"
  by (simp add: forEach_collect [of cb g, OF assms] append_Nil_fun option.map_ident)

lemma collect_None_iff: "collect g xs = None \<longleftrightarrow> (\<exists>x \<in> set xs. g x = None)"
  by (induction xs) (auto split: option.splits)

lemma collect_Some_all2:
  "collect g xs = Some out \<Longrightarrow>
     \<exists>rss. out = concat rss \<and> list_all2 (\<lambda>x rs. g x = Some rs) xs rss"
proof (induction xs arbitrary: out)
  case Nil
  then show ?case by simp
next
  case (Cons x xs)
  from Cons.prems obtain rs rest where g: "g x = Some rs" and c: "collect g xs = Some rest"
    and out: "out = rs @ rest"
    by (auto split: option.splits)
  from Cons.IH [OF c] obtain rss where "rest = concat rss"
    and "list_all2 (\<lambda>x rs. g x = Some rs) xs rss" by blast
  with g out have "out = concat (rs # rss) \<and> list_all2 (\<lambda>x rs. g x = Some rs) (x # xs) (rs # rss)"
    by simp
  then show ?case by blast
qed


lemma collect_singletons:
  "collect (\<lambda>x. map_option (\<lambda>v. [v]) (h x)) xs = those (map h xs)"
  by (induction xs) (auto split: option.splits simp: append_single_fun)

lemma those_Some_all2:
  "those (map h xs) = Some vs \<Longrightarrow> list_all2 (\<lambda>x v. h x = Some v) xs vs"
  by (induction xs arbitrary: vs) (auto split: option.splits)

lemma those_None_iff: "those (map h xs) = None \<longleftrightarrow> (\<exists>x \<in> set xs. h x = None)"
  by (induction xs) (auto split: option.splits)


lemma forEach_push:
  "forEach xs (\<lambda>x acc. do { v \<leftarrow> h x; Some (acc @ [v]) }) acc
     = map_option ((@) acc) (those (map h xs))"
proof -
  have "forEach xs (\<lambda>x acc. do { v \<leftarrow> h x; Some (acc @ [v]) }) acc
          = map_option ((@) acc) (collect (\<lambda>x. map_option (\<lambda>v. [v]) (h x)) xs)"
    by (rule forEach_collect) (simp split: Option.bind_split)
  then show ?thesis by (simp add: collect_singletons)
qed

lemma forEach_push_Nil:
  "forEach xs (\<lambda>x acc. do { v \<leftarrow> h x; Some (acc @ [v]) }) [] = those (map h xs)"
  by (simp add: forEach_push append_Nil_fun option.map_ident)

lemma forEach_push_filter:
  "forEach xs (\<lambda>x acc. if p x then do { v \<leftarrow> h x; Some (acc @ [v]) } else Some acc) acc
     = map_option ((@) acc) (those (map h (filter p xs)))"
proof -
  let ?g = "\<lambda>x. if p x then map_option (\<lambda>v. [v]) (h x) else Some []"
  have "forEach xs (\<lambda>x acc. if p x then do { v \<leftarrow> h x; Some (acc @ [v]) } else Some acc) acc
          = map_option ((@) acc) (collect ?g xs)"
    by (rule forEach_collect) (simp split: Option.bind_split)
  moreover have "collect ?g xs = those (map h (filter p xs))"
    by (induction xs) (auto split: option.splits simp: append_single_fun append_Nil_fun option.map_ident)
  ultimately show ?thesis by simp
qed

text \<open>The three JSON parsers as functions of the parsed document.\<close>

lemma parseSARIF_try_collect:
  "parseSARIF_try sarif = do {
     runs \<leftarrow> js_get sarif ''runs'';
     if truthy runs \<and> isArray runs then collect sarif_run_records (elements runs) else Some []
   }"
proof -
  have "forEach xs (\<lambda>run vulnerabilities. do {
         results \<leftarrow> js_get run ''results'';
         if truthy results \<and> isArray results then
           forEach (elements results) (\<lambda>result vulnerabilities. do {
             v \<leftarrow> sarif_result run result;
             Some (vulnerabilities @ [v])
           }) vulnerabilities
         else Some vulnerabilities
       }) [] = collect sarif_run_records xs" for xs
    by (rule forEach_collect_Nil)
       (simp add: sarif_run_records_def forEach_push split: Option.bind_split)
  then show ?thesis
    unfolding parseSARIF_try_def by (simp split: Option.bind_split)
qed

lemma sca_package_collect:
  "sca_package vulns pkg acc = map_option ((@) acc) (sca_package_records vulns pkg)"
  unfolding sca_package_def sca_package_records_def
  by (simp add: forEach_push_filter split: Option.bind_split)

lemma parseSCAJSON_try_collect:
  "parseSCAJSON_try data = do {
     vulns \<leftarrow> js_get data ''vulnerabilities'';
     if truthy vulns \<and> isArray vulns then those (map sca_array_record (elements vulns))
     else if truthy vulns then collect (sca_package_records vulns) (Object_keys vulns)
     else Some []
   }"
  unfolding parseSCAJSON_try_def
  by (simp add: forEach_push_Nil forEach_collect_Nil [of _ "sca_package_records vulns" for vulns, OF sca_package_collect]
           split: Option.bind_split)


subsection \<open>The HTML parser\<close>

lemma normalizeSeverity_string: "normalizeSeverity (JStr raw) = Some (classify_spec raw)"
  by (auto simp: normalizeSeverity_def classify_spec_def severity_candidates_def
                 js_includes_def Let_def)

lemma parseHTML_loop_step:
  assumes "i < min (length cwes) (length severities)"
  shows "parseHTML_loop i cwes severities acc
           = parseHTML_loop (i + 1) cwes severities
               (acc @ [html_record (cwes ! i) (severities ! i)])"
  using assms
  by (subst parseHTML_loop.simps) (simp add: normalizeSeverity_string html_record_def)

lemma parseHTML_loop_stop:
  assumes "\<not> i < min (length cwes) (length severities)"
  shows "parseHTML_loop i cwes severities acc = Some acc"
  using assms by (subst parseHTML_loop.simps) auto

lemma parseHTML_loop_zip:
  "parseHTML_loop i cwes severities acc
     = Some (acc @ map (\<lambda>(c, w). html_record c w) (drop i (zip cwes severities)))"
proof (induction "min (length cwes) (length severities) - i" arbitrary: i acc)
  case 0
  then have stop: "\<not> i < min (length cwes) (length severities)" by arith
  then have "length (zip cwes severities) \<le> i" by auto
  then have "drop i (zip cwes severities) = []" by (rule drop_all)
  with parseHTML_loop_stop [OF stop] show ?case by simp
next
  case (Suc n)
  then have go: "i < min (length cwes) (length severities)" by arith
  then have iz: "i < length (zip cwes severities)" by simp
  have "drop i (zip cwes severities)
          = zip cwes severities ! i # drop (Suc i) (zip cwes severities)"
    by (rule Cons_nth_drop_Suc [OF iz, symmetric])
  then have d: "drop i (zip cwes severities)
                  = (cwes ! i, severities ! i) # drop (i + 1) (zip cwes severities)"
    using go by simp
  have "n = min (length cwes) (length severities) - (i + 1)" using Suc.hyps(2) by arith
  from Suc.hyps(1) [OF this] show ?case
    by (simp add: parseHTML_loop_step [OF go] d)
qed

lemma parseHTML_zip:
  "parseHTML content
     = Some (map (\<lambda>(c, w). html_record c w) (zip (matchAll_CWE content) (matchAll_severity content)))"
  by (simp add: parseHTML_def parseHTML_loop_zip)

lemma html_record_strings: "record_strings (html_record c w)"
  by (simp add: record_strings_def fields_of_def html_record_def)

subsection \<open>Fields of the records\<close>

lemma truthy_result_lit [simp]: "truthy_result (Some (JStr (c # cs)))"
  by (simp add: truthy_result_def)

lemma truthy_result_or_else [simp]: "truthy_result b \<Longrightarrow> truthy_result (or_else a b)"
  by (auto simp: truthy_result_def or_else_def split: option.splits)

lemma truthy_defined: "truthy v \<Longrightarrow> defined v"
  by (cases v) simp_all


lemma js_or_defined [simp]: "truthy b \<Longrightarrow> defined (js_or a b)"
  by (simp add: js_or_def truthy_defined)












subsection \<open>The text parser of dependency reports\<close>

lemma collect_total: "collect (\<lambda>x. Some (f x)) xs = Some (concat (map f xs))"
  by (induction xs) simp_all

lemma scatxt_line_records:
  "scatxt_line line acc = map_option ((@) acc) (Some (txt_line_records line))"
  by (simp add: scatxt_line_def txt_line_records_def txt_record_def normalizeSeverity_string
           split: option.splits)

lemma parseSCATXT_concat:
  "parseSCATXT content = Some (concat (map txt_line_records (split_lines content)))"
  unfolding parseSCATXT_def
  by (simp add: forEach_collect_Nil [of scatxt_line "\<lambda>line. Some (txt_line_records line)",
                                     OF scatxt_line_records] collect_total)

lemma txt_line_records_strings: "list_all record_strings (txt_line_records line)"
  by (simp add: txt_line_records_def txt_record_def record_strings_def fields_of_def
           split: option.splits)

lemma parseSCATXT_strings:
  "\<exists>vs. parseSCATXT content = Some vs \<and> list_all record_strings vs"
  by (simp add: parseSCATXT_concat list_all_iff)
     (metis txt_line_records_strings list_all_iff)

lemma parseHTML_strings:
  "\<exists>vs. parseHTML content = Some vs \<and> list_all record_strings vs"
  by (auto simp: parseHTML_zip list_all_iff html_record_strings)

subsection \<open>Records and findings, one to one\<close>

lemma list_all2_concat:
  "list_all2 (list_all2 P) xss yss \<Longrightarrow> list_all2 P (concat xss) (concat yss)"
  by (induction xss yss rule: list_all2_induct) (auto intro: list_all2_appendI)

lemma collect_all2_concat:
  assumes "collect g xs = Some out"
    and "\<And>x rs. g x = Some rs \<Longrightarrow> list_all2 P (f x) rs"
  shows "list_all2 P (concat (map f xs)) out"
proof -
  from collect_Some_all2 [OF assms(1)] obtain rss where out: "out = concat rss"
    and all: "list_all2 (\<lambda>x rs. g x = Some rs) xs rss" by blast
  from all have "list_all2 (\<lambda>x rs. list_all2 P (f x) rs) xs rss"
    by (rule list_all2_mono) (rule assms(2))
  then have "list_all2 (list_all2 P) (map f xs) rss"
    by (simp add: list_all2_map1)
  then show ?thesis unfolding out by (rule list_all2_concat)
qed

lemma js_get_Some: "js_get v k = Some x \<Longrightarrow> js_get_opt v k = x \<and> \<not> nullish v"
  by (auto simp: js_get_def js_get_opt_def split: if_splits)

lemma sarif_run_records_all2:
  assumes "sarif_run_records run = Some rs"
  shows "list_all2 (\<lambda>(run, result) r. sarif_result run result = Some r)
           (map (Pair run) (elements (js_get_opt run ''results''))) rs"
proof -
  from assms obtain results where g: "js_get run ''results'' = Some results"
    and rs: "(if truthy results \<and> isArray results
              then those (map (sarif_result run) (elements results)) else Some []) = Some rs"
    by (auto simp: sarif_run_records_def bind_eq_Some_conv)
  from js_get_Some [OF g] have o: "js_get_opt run ''results'' = results" by simp
  show ?thesis
  proof (cases "isArray results")
    case True
    then have "truthy results" by (cases results) simp_all
    with True rs have "those (map (sarif_result run) (elements results)) = Some rs" by simp
    from those_Some_all2 [OF this] show ?thesis
      by (simp add: o list_all2_map1)
  next
    case False
    then have "elements results = []" by (cases results) simp_all
    moreover from False rs have "rs = []" by simp
    ultimately show ?thesis by (simp add: o)
  qed
qed

lemma parseSARIF_try_all2:
  assumes "parseSARIF_try sarif = Some out"
  shows "list_all2 (\<lambda>(run, result) r. sarif_result run result = Some r) (sarif_pairs sarif) out"
proof -
  from assms obtain runs where g: "js_get sarif ''runs'' = Some runs"
    and c: "(if truthy runs \<and> isArray runs
             then collect sarif_run_records (elements runs) else Some []) = Some out"
    by (auto simp: parseSARIF_try_collect bind_eq_Some_conv)
  from js_get_Some [OF g] have o: "js_get_opt sarif ''runs'' = runs" by simp
  show ?thesis
  proof (cases "isArray runs")
    case True
    then have "truthy runs" by (cases runs) simp_all
    with True c have "collect sarif_run_records (elements runs) = Some out" by simp
    then show ?thesis
      unfolding sarif_pairs_def o
      by (rule collect_all2_concat) (rule sarif_run_records_all2)
  next
    case False
    then have "elements runs = []" by (cases runs) simp_all
    moreover from False c have "out = []" by simp
    ultimately show ?thesis by (simp add: sarif_pairs_def o)
  qed
qed

lemma sarif_result_level:
  assumes "sarif_result run result = Some r" and "js_get_opt result ''level'' = JStr l"
    and "l \<noteq> []"
  shows "severity_v r = JStr (classify_spec l)"
proof -
  from assms(2) have nn: "\<not> nullish result"
    by (auto simp: js_get_opt_def split: if_splits)
  with assms(2) have lv: "js_get result ''level'' = Some (JStr l)"
    by (simp add: js_get_def js_get_opt_def)
  from assms(1) obtain s where "normalizeSeverity (JStr l) = Some s" and "severity_v r = JStr s"
    using assms(3)
    by (auto simp: sarif_result_def Let_def lv bind_eq_Some_conv)
  then show ?thesis by (simp add: normalizeSeverity_string)
qed

lemma sca_via_record_null: "sca_via_record pkg vuln JNull = None"
  by (simp add: sca_via_record_def js_get_def or_else_def)




lemma keyed_shape_collect:
  assumes "js_get data ''vulnerabilities'' = Some vulns" and "truthy vulns" and "\<not> isArray vulns"
  shows "parseSCAJSON_try data = collect (sca_package_records vulns) (Object_keys vulns)"
  using assms by (simp add: parseSCAJSON_try_collect)





subsection \<open>Severity words\<close>

lemma match_severity_at_word:
  assumes "match_severity_at s = Some (w, rest)"
  shows "toUpperCase w \<in> set [''CRITICAL'', ''HIGH'', ''MEDIUM'', ''LOW'']"
proof -
  from assms obtain w0 where f: "find (\<lambda>w. prefix_ci w s) [''CRITICAL'', ''HIGH'', ''MEDIUM'', ''LOW''] = Some w0"
    and w: "w = take (length w0) s"
    by (auto simp: match_severity_at_def split: option.splits)
  from f have "w0 \<in> set [''CRITICAL'', ''HIGH'', ''MEDIUM'', ''LOW'']" and "prefix_ci w0 s"
    by (auto simp: find_Some_iff nth_Cons' split: if_splits)
  then have "toUpperCase w = toUpperCase w0" by (simp add: w prefix_ci_def)
  moreover have "toUpperCase w0 = w0"
    using \<open>w0 \<in> set [''CRITICAL'', ''HIGH'', ''MEDIUM'', ''LOW'']\<close>
    by (auto simp: toUpperCase_def toUpperCase_char_def)
  ultimately show ?thesis using \<open>w0 \<in> set [''CRITICAL'', ''HIGH'', ''MEDIUM'', ''LOW'']\<close> by simp
qed

lemma classify_spec_word:
  assumes "toUpperCase w \<in> set [''CRITICAL'', ''HIGH'', ''MEDIUM'', ''LOW'']"
  shows "classify_spec w = toUpperCase w"
proof -
  have c: "find (\<lambda>(pats, lvl). list_ex (\<lambda>p. sublist p ''CRITICAL'') pats) severity_candidates
             = Some ([''CRITICAL'', ''CRIT''], ''CRITICAL'')" by code_simp
  have h: "find (\<lambda>(pats, lvl). list_ex (\<lambda>p. sublist p ''HIGH'') pats) severity_candidates
             = Some ([''HIGH''], ''HIGH'')" by code_simp
  have m: "find (\<lambda>(pats, lvl). list_ex (\<lambda>p. sublist p ''MEDIUM'') pats) severity_candidates
             = Some ([''MEDIUM'', ''MED''], ''MEDIUM'')" by code_simp
  have l: "find (\<lambda>(pats, lvl). list_ex (\<lambda>p. sublist p ''LOW'') pats) severity_candidates
             = Some ([''LOW''], ''LOW'')" by code_simp
  from assms have "w \<noteq> []" by (auto simp: toUpperCase_def)
  with assms c h m l show ?thesis
    by (auto simp: classify_spec_def)
qed

lemma matchAll_severity_word:
  "w \<in> set (matchAll_severity s) \<Longrightarrow>
     toUpperCase w \<in> set [''CRITICAL'', ''HIGH'', ''MEDIUM'', ''LOW'']"
proof (induction s rule: matchAll_severity.induct)
  case 1
  then show ?case by simp
next
  case (2 c cs)
  show ?case
  proof (cases "match_severity_at (c # cs)")
    case None
    with 2 show ?thesis by simp
  next
    case (Some p)
    obtain w' rest where p: "p = (w', rest)" by (cases p)
    from "2.prems" Some p have "w = w' \<or> w \<in> set (matchAll_severity rest)" by simp
    then show ?thesis
    proof
      assume "w = w'"
      with match_severity_at_word [of "c # cs" w' rest] Some p show ?thesis by simp
    next
      assume "w \<in> set (matchAll_severity rest)"
      with "2.IH" Some p show ?thesis by simp
    qed
  qed
qed

subsection \<open>Aggregators\<close>

lemma forEach_total:
  assumes "\<And>x acc. cb x acc \<noteq> None"
  shows "forEach xs cb acc \<noteq> None"
proof (induction xs arbitrary: acc)
  case Nil
  show ?case by simp
next
  case (Cons x xs)
  from assms [of x acc] obtain acc' where "cb x acc = Some acc'" by blast
  with Cons.IH [of acc'] show ?case by simp
qed

lemma forEach_same_view:
  assumes "map view xs = map view ys" and "\<And>x y. view x = view y \<Longrightarrow> cb x = cb y"
  shows "forEach xs cb acc = forEach ys cb acc"
  using assms(1)
proof (induction xs arbitrary: ys acc)
  case Nil
  then show ?case by simp
next
  case (Cons x xs)
  from Cons.prems obtain y ys' where ys: "ys = y # ys'" and v: "view x = view y"
    and rest: "map view xs = map view ys'"
    by (cases ys) auto
  from assms(2) [OF v] have "cb x acc = cb y acc" by simp
  with Cons.IH [OF rest] show ?case
    by (simp add: ys split: option.splits)
qed

lemma sast_file_total: "sast_file JSON_parse file acc \<noteq> None"
  using parseHTML_strings [of "content_f file"] by (auto simp: sast_file_def)

lemma sca_file_total: "sca_file JSON_parse file acc \<noteq> None"
  using parseSCATXT_strings [of "content_f file"] by (auto simp: sca_file_def)

lemma dast_file_total: "dast_file JSON_parse file acc \<noteq> None"
  by (simp add: dast_file_def)

lemma sast_file_view: "file_view f = file_view g \<Longrightarrow> sast_file JSON_parse f = sast_file JSON_parse g"
  by (auto simp: file_view_def sast_file_def fun_eq_iff)

lemma sca_file_view: "file_view f = file_view g \<Longrightarrow> sca_file JSON_parse f = sca_file JSON_parse g"
  by (auto simp: file_view_def sca_file_def fun_eq_iff)

lemma dast_file_view: "file_view f = file_view g \<Longrightarrow> dast_file JSON_parse f = dast_file JSON_parse g"
  by (auto simp: file_view_def dast_file_def fun_eq_iff)

lemma aggregate_same_view:
  assumes "readFilesFromDirectory fs1 dir1 = Inr files1"
    and "readFilesFromDirectory fs2 dir2 = Inr files2"
    and "map file_view files1 = map file_view files2"
    and "\<And>f g. file_view f = file_view g \<Longrightarrow> per_file f = per_file g"
    and "\<And>f acc. per_file f acc \<noteq> None"
  shows "aggregate category per_file fs1 dir1 = aggregate category per_file fs2 dir2
         \<and> (\<exists>vs. aggregate category per_file fs1 dir1
                   = Inr \<lparr> tool = category, vulnerabilities = vs \<rparr>)"
proof -
  have same: "forEach files1 per_file [] = forEach files2 per_file []"
    using assms(3,4) by (rule forEach_same_view)
  from forEach_total [of per_file files1 "[]"] assms(5)
  obtain vs where vs: "forEach files1 per_file [] = Some vs" by blast
  with same have "forEach files2 per_file [] = Some vs" by simp
  with vs show ?thesis
    by (simp add: aggregate_def assms(1,2))
qed

lemma aggregate_no_files:
  assumes "\<not> existsSync fs dir \<or> readdirSync fs dir = Inr []"
  shows "aggregate category per_file fs dir = Inr \<lparr> tool = category, vulnerabilities = [] \<rparr>"
  using assms by (auto simp: aggregate_def readFilesFromDirectory_def)

subsection \<open>The matchers find what the patterns describe\<close>



lemma toUpperCase_length [simp]: "length (toUpperCase s) = length s"
  by (simp add: toUpperCase_def)

lemma toUpperCase_take: "toUpperCase (take n s) = take n (toUpperCase s)"
  by (simp add: toUpperCase_def take_map)

lemma prefix_ci_CVE:
  "prefix_ci ''CVE-'' s \<longleftrightarrow> 4 \<le> length s \<and> toUpperCase (take 4 s) = ''CVE-''"
proof -
  have l: "length ''CVE-'' = 4" by simp
  have u: "toUpperCase ''CVE-'' = ''CVE-''" by code_simp
  show ?thesis unfolding prefix_ci_def l u ..
qed

lemma match_CVE_at_token:
  assumes "match_CVE_at s = Some m"
  shows "is_cve_token m \<and> prefix m s"
proof -
  let ?ds = "takeWhile is_digit (drop 9 s)"
  from assms have p: "prefix_ci ''CVE-'' s"
    and d4: "length (take 4 (drop 4 s)) = 4" "list_all is_digit (take 4 (drop 4 s))"
    and dash: "prefix ''-'' (drop 8 s)"
    and ne: "?ds \<noteq> []"
    and m: "m = take (9 + length ?ds) s"
    by (auto simp: match_CVE_at_def split: if_splits)
  have "length ?ds \<le> length (drop 9 s)" by (rule length_takeWhile_le)
  have d9: "drop 9 m = ?ds"
    unfolding m by (simp add: drop_take takeWhile_eq_take [symmetric])
  have "take 4 m = take 4 s" unfolding m by (simp add: min_def)
  moreover have "take 4 (drop 4 m) = take 4 (drop 4 s)"
    unfolding m by (simp add: drop_take min_def)
  moreover have "take 1 (drop 8 m) = take 1 (drop 8 s)"
    unfolding m by (simp add: drop_take min_def)
  moreover from dash have "take 1 (drop 8 s) = ''-''"
    by (auto simp: prefix_def)
  moreover have "list_all is_digit ?ds"
    by (simp add: list_all_iff) (meson set_takeWhileD)
  ultimately have "is_cve_token m"
    using p d4 ne d9 by (simp add: is_cve_token_def prefix_ci_CVE)
  moreover have "prefix m s" unfolding m by (rule take_is_prefix)
  ultimately show ?thesis by simp
qed



lemma match_CVE_Some:
  "match_CVE line = Some m \<Longrightarrow> is_cve_token m \<and> sublist m line"
proof (induction line)
  case Nil
  then show ?case by simp
next
  case (Cons c cs)
  show ?case
  proof (cases "match_CVE_at (c # cs)")
    case None
    with Cons show ?thesis by (auto simp: sublist_Cons_right)
  next
    case (Some m')
    with Cons.prems have "m' = m" by simp
    with match_CVE_at_token [OF Some] show ?thesis
      by (auto intro: prefix_imp_sublist)
  qed
qed

lemma match_severity_at_prefix:
  assumes "match_severity_at s = Some (w, rest)"
  shows "is_severity_word w \<and> prefix w s"
proof -
  from assms have "prefix w s"
    by (auto simp: match_severity_at_def take_is_prefix split: option.splits)
  with match_severity_at_word [OF assms] show ?thesis by (simp add: is_severity_word_def)
qed



lemma match_severity_Some:
  "match_severity line = Some w \<Longrightarrow> is_severity_word w \<and> sublist w line"
proof (induction line)
  case Nil
  then show ?case by simp
next
  case (Cons c cs)
  show ?case
  proof (cases "match_severity_at (c # cs)")
    case None
    with Cons show ?thesis by (auto simp: sublist_Cons_right)
  next
    case (Some p)
    obtain w' rest where p: "p = (w', rest)" by (cases p)
    with Some Cons.prems have "w' = w" by simp
    with match_severity_at_prefix [of "c # cs" w' rest] Some p show ?thesis
      by (auto intro: prefix_imp_sublist)
  qed
qed







section \<open>The claims\<close>




text \<open>
  C2. On a string the classifier is the ordered first-match rule of the specification
  (\<open>classify_spec\<close>: \<^verbatim>\<open>CRITICAL\<close>/\<^verbatim>\<open>CRIT\<close>, \<^verbatim>\<open>HIGH\<close>, \<^verbatim>\<open>MEDIUM\<close>/\<^verbatim>\<open>MED\<close>, \<^verbatim>\<open>LOW\<close>, \<^verbatim>\<open>INFO\<close>), and
  an input whose upper-casing contains both \<^verbatim>\<open>CRITICAL\<close> and \<^verbatim>\<open>HIGH\<close> is classified
  \<^verbatim>\<open>CRITICAL\<close>, wherever the two occur.
\<close>

theorem severity_priority:
  "normalizeSeverity (JStr raw) = Some (classify_spec raw)
   \<and> (sublist ''CRITICAL'' (toUpperCase raw) \<and> sublist ''HIGH'' (toUpperCase raw)
        \<longrightarrow> normalizeSeverity (JStr raw) = Some ''CRITICAL'')"
proof (intro conjI impI)
  show "normalizeSeverity (JStr raw) = Some (classify_spec raw)"
    by (rule normalizeSeverity_string)
next
  assume both: "sublist ''CRITICAL'' (toUpperCase raw) \<and> sublist ''HIGH'' (toUpperCase raw)"
  then have "raw \<noteq> []" by (auto simp: toUpperCase_def)
  with both show "normalizeSeverity (JStr raw) = Some ''CRITICAL''"
    by (simp add: normalizeSeverity_def js_includes_def)
qed

theorem severity_priority_witness:
  "sublist ''CRITICAL'' (toUpperCase ''high/critical'')
   \<and> sublist ''HIGH'' (toUpperCase ''high/critical'')
   \<and> normalizeSeverity (JStr ''high/critical'') = Some ''CRITICAL''
   \<and> classify_spec ''high/critical'' = ''CRITICAL''"
proof -
  have h: "sublist ''CRITICAL'' (toUpperCase ''high/critical'')
           \<and> sublist ''HIGH'' (toUpperCase ''high/critical'')"
    by code_simp
  with severity_priority [of "''high/critical''"] show ?thesis by auto
qed

text \<open>
  C3 as the specification states it fails: the record of a result with level
  \<^verbatim>\<open>error\<close> has severity \<^verbatim>\<open>ERROR\<close>, not \<^verbatim>\<open>UNKNOWN\<close>.
\<close>

theorem sarif_error_level_is_not_unknown:
  "parseSARIF example_JSON_parse xss_sarif_text
     = [\<lparr> id_v = JStr ''CWE-79'', name_v = JStr ''XSS'', severity_v = JStr ''ERROR'',
          file_v = JStr ''unknown'', description_v = JStr ''No description'',
          recommendation_v = JStr ''Sanitize input'' \<rparr>]
   \<and> severity_v (hd (parseSARIF example_JSON_parse xss_sarif_text)) \<noteq> JStr ''UNKNOWN''"
  by code_simp

text \<open>
  C3, as amended. The level of a SARIF result goes through the classifier, matches none
  of its substrings and comes back upper-cased: when the \<^verbatim>\<open>try\<close> block completes, the
  records are one per result, in document order, and the record of a result whose level
  is \<^verbatim>\<open>error\<close>, \<^verbatim>\<open>warning\<close> or \<^verbatim>\<open>note\<close> has severity \<^verbatim>\<open>ERROR\<close>, \<^verbatim>\<open>WARNING\<close> or \<^verbatim>\<open>NOTE\<close>.
\<close>

theorem sarif_level_upper_cased:
  assumes "JSON_parse content = Some sarif" and "parseSARIF_try sarif = Some out"
  shows "parseSARIF JSON_parse content = out
         \<and> list_all2 (\<lambda>(run, result) r.
              sarif_result run result = Some r
              \<and> (js_get_opt result ''level'' = JStr ''error'' \<longrightarrow> severity_v r = JStr ''ERROR'')
              \<and> (js_get_opt result ''level'' = JStr ''warning'' \<longrightarrow> severity_v r = JStr ''WARNING'')
              \<and> (js_get_opt result ''level'' = JStr ''note'' \<longrightarrow> severity_v r = JStr ''NOTE''))
            (sarif_pairs sarif) out"
proof -
  have e: "classify_spec ''error'' = ''ERROR''" by code_simp
  have w: "classify_spec ''warning'' = ''WARNING''" by code_simp
  have n: "classify_spec ''note'' = ''NOTE''" by code_simp
  have p: "parseSARIF JSON_parse content = out"
    using assms by (simp add: parseSARIF_def)
  have E: "severity_v r = JStr ''ERROR''"
    if "sarif_result run result = Some r" "js_get_opt result ''level'' = JStr ''error''"
    for run result r
    using sarif_result_level [OF that] e by simp
  have W: "severity_v r = JStr ''WARNING''"
    if "sarif_result run result = Some r" "js_get_opt result ''level'' = JStr ''warning''"
    for run result r
    using sarif_result_level [OF that] w by simp
  have N: "severity_v r = JStr ''NOTE''"
    if "sarif_result run result = Some r" "js_get_opt result ''level'' = JStr ''note''"
    for run result r
    using sarif_result_level [OF that] n by simp
  have "list_all2 (\<lambda>(run, result) r.
              sarif_result run result = Some r
              \<and> (js_get_opt result ''level'' = JStr ''error'' \<longrightarrow> severity_v r = JStr ''ERROR'')
              \<and> (js_get_opt result ''level'' = JStr ''warning'' \<longrightarrow> severity_v r = JStr ''WARNING'')
              \<and> (js_get_opt result ''level'' = JStr ''note'' \<longrightarrow> severity_v r = JStr ''NOTE''))
            (sarif_pairs sarif) out"
    by (rule list_all2_mono [OF parseSARIF_try_all2 [OF assms(2)]]) (auto simp: E W N)
  with p show ?thesis by simp
qed

theorem sarif_level_upper_cased_witness:
  "example_JSON_parse xss_sarif_text = Some xss_sarif_doc
   \<and> sarif_pairs xss_sarif_doc = [(xss_run, xss_result)]
   \<and> js_get_opt xss_result ''level'' = JStr ''error''
   \<and> parseSARIF example_JSON_parse xss_sarif_text
       = [\<lparr> id_v = JStr ''CWE-79'', name_v = JStr ''XSS'', severity_v = JStr ''ERROR'',
            file_v = JStr ''unknown'', description_v = JStr ''No description'',
            recommendation_v = JStr ''Sanitize input'' \<rparr>]"
proof -
  have a: "example_JSON_parse xss_sarif_text = Some xss_sarif_doc" by code_simp
  have b: "parseSARIF_try xss_sarif_doc
       = Some [\<lparr> id_v = JStr ''CWE-79'', name_v = JStr ''XSS'', severity_v = JStr ''ERROR'',
            file_v = JStr ''unknown'', description_v = JStr ''No description'',
            recommendation_v = JStr ''Sanitize input'' \<rparr>]" by code_simp
  have c: "sarif_pairs xss_sarif_doc = [(xss_run, xss_result)]"
    by (simp add: sarif_pairs_def xss_sarif_doc_def js_get_opt_def)
       (simp add: xss_run_def)
  have d: "js_get_opt xss_result ''level'' = JStr ''error''" by code_simp
  from sarif_level_upper_cased [of example_JSON_parse xss_sarif_text xss_sarif_doc, OF a b] a c d
  show ?thesis by simp
qed








text \<open>
  C7. When \<^verbatim>\<open>JSON.parse\<close> rejects the text, each of the three JSON parsers returns the
  empty array, and so does \<^verbatim>\<open>parseSARIF\<close> on a document whose \<^verbatim>\<open>runs\<close> is not an array
  (absent included). The parsers are total functions into lists: the \<^verbatim>\<open>catch\<close> clause
  leaves no exception to escape.
\<close>

theorem malformed_json_gives_empty:
  "(JSON_parse content = None \<longrightarrow>
      parseSARIF JSON_parse content = []
      \<and> parseSCAJSON JSON_parse content = []
      \<and> parseDASTJSON JSON_parse content = [])
   \<and> (JSON_parse content = Some sarif \<and> \<not> isArray (js_get_opt sarif ''runs'') \<longrightarrow>
      parseSARIF JSON_parse content = [])"
  by (auto simp: parseSARIF_def parseSCAJSON_def parseDASTJSON_def parseSARIF_try_def
                 js_get_def js_get_opt_def
           split: option.splits Option.bind_splits if_splits)

theorem malformed_json_gives_empty_witness:
  "example_JSON_parse ''not json'' = None
   \<and> parseSARIF example_JSON_parse ''not json'' = []
   \<and> parseSCAJSON example_JSON_parse ''not json'' = []
   \<and> parseDASTJSON example_JSON_parse ''not json'' = []
   \<and> example_JSON_parse no_runs_text = Some no_runs_doc
   \<and> \<not> isArray (js_get_opt no_runs_doc ''runs'')
   \<and> parseSARIF example_JSON_parse no_runs_text = []"
proof -
  have a: "example_JSON_parse ''not json'' = None"
    by code_simp
  have b: "example_JSON_parse no_runs_text = Some no_runs_doc"
    by code_simp
  have c: "\<not> isArray (js_get_opt no_runs_doc ''runs'')"
    by code_simp
  from a b c
    malformed_json_gives_empty [of example_JSON_parse "''not json''"]
    malformed_json_gives_empty [of example_JSON_parse no_runs_text no_runs_doc]
  show ?thesis by blast
qed

text \<open>
  C8. Each aggregator is a function of the sequence of file names and contents that its
  directory lists: two runs (two file systems, two directories, any paths) that read the
  same names and contents in the same order return the same \<^verbatim>\<open>ToolResult\<close>, without an
  exception, and hence the same serialisation, whatever deterministic function
  \<open>JSON_stringify\<close> serialises it. A directory that is missing or lists no file gives the
  category tag with no vulnerabilities.
\<close>

theorem aggregators_deterministic:
  "(readFilesFromDirectory fs1 dir1 = Inr files1
    \<and> readFilesFromDirectory fs2 dir2 = Inr files2
    \<and> map file_view files1 = map file_view files2 \<longrightarrow>
      (\<exists>sast sca dast.
         parseSASTReports JSON_parse fs1 dir1 = Inr sast
         \<and> parseSASTReports JSON_parse fs2 dir2 = Inr sast
         \<and> parseSCAReports JSON_parse fs1 dir1 = Inr sca
         \<and> parseSCAReports JSON_parse fs2 dir2 = Inr sca
         \<and> parseDASTReports JSON_parse fs1 dir1 = Inr dast
         \<and> parseDASTReports JSON_parse fs2 dir2 = Inr dast)
      \<and> map_sum id JSON_stringify (parseSASTReports JSON_parse fs1 dir1)
          = map_sum id JSON_stringify (parseSASTReports JSON_parse fs2 dir2)
      \<and> map_sum id JSON_stringify (parseSCAReports JSON_parse fs1 dir1)
          = map_sum id JSON_stringify (parseSCAReports JSON_parse fs2 dir2)
      \<and> map_sum id JSON_stringify (parseDASTReports JSON_parse fs1 dir1)
          = map_sum id JSON_stringify (parseDASTReports JSON_parse fs2 dir2))
   \<and> (\<not> existsSync fs dir \<or> readdirSync fs dir = Inr [] \<longrightarrow>
        parseSASTReports JSON_parse fs dir = Inr \<lparr> tool = ''SAST'', vulnerabilities = [] \<rparr>
        \<and> parseSCAReports JSON_parse fs dir = Inr \<lparr> tool = ''SCA'', vulnerabilities = [] \<rparr>
        \<and> parseDASTReports JSON_parse fs dir = Inr \<lparr> tool = ''DAST'', vulnerabilities = [] \<rparr>)"
proof (intro conjI impI)
  assume "\<not> existsSync fs dir \<or> readdirSync fs dir = Inr []"
  then show "parseSASTReports JSON_parse fs dir = Inr \<lparr> tool = ''SAST'', vulnerabilities = [] \<rparr>"
    and "parseSCAReports JSON_parse fs dir = Inr \<lparr> tool = ''SCA'', vulnerabilities = [] \<rparr>"
    and "parseDASTReports JSON_parse fs dir = Inr \<lparr> tool = ''DAST'', vulnerabilities = [] \<rparr>"
    by (simp_all add: parseSASTReports_def parseSCAReports_def parseDASTReports_def
                      aggregate_no_files)
next
  assume a: "readFilesFromDirectory fs1 dir1 = Inr files1
    \<and> readFilesFromDirectory fs2 dir2 = Inr files2
    \<and> map file_view files1 = map file_view files2"
  then have r1: "readFilesFromDirectory fs1 dir1 = Inr files1"
    and r2: "readFilesFromDirectory fs2 dir2 = Inr files2"
    and v: "map file_view files1 = map file_view files2" by simp_all
  have sast: "parseSASTReports JSON_parse fs1 dir1 = parseSASTReports JSON_parse fs2 dir2
              \<and> (\<exists>vs. parseSASTReports JSON_parse fs1 dir1
                        = Inr \<lparr> tool = ''SAST'', vulnerabilities = vs \<rparr>)"
    unfolding parseSASTReports_def
    by (rule aggregate_same_view [OF r1 r2 v sast_file_view sast_file_total])
  have sca: "parseSCAReports JSON_parse fs1 dir1 = parseSCAReports JSON_parse fs2 dir2
              \<and> (\<exists>vs. parseSCAReports JSON_parse fs1 dir1
                        = Inr \<lparr> tool = ''SCA'', vulnerabilities = vs \<rparr>)"
    unfolding parseSCAReports_def
    by (rule aggregate_same_view [OF r1 r2 v sca_file_view sca_file_total])
  have dast: "parseDASTReports JSON_parse fs1 dir1 = parseDASTReports JSON_parse fs2 dir2
              \<and> (\<exists>vs. parseDASTReports JSON_parse fs1 dir1
                        = Inr \<lparr> tool = ''DAST'', vulnerabilities = vs \<rparr>)"
    unfolding parseDASTReports_def
    by (rule aggregate_same_view [OF r1 r2 v dast_file_view dast_file_total])
  from sast sca dast
  show "\<exists>sast sca dast.
         parseSASTReports JSON_parse fs1 dir1 = Inr sast
         \<and> parseSASTReports JSON_parse fs2 dir2 = Inr sast
         \<and> parseSCAReports JSON_parse fs1 dir1 = Inr sca
         \<and> parseSCAReports JSON_parse fs2 dir2 = Inr sca
         \<and> parseDASTReports JSON_parse fs1 dir1 = Inr dast
         \<and> parseDASTReports JSON_parse fs2 dir2 = Inr dast"
    by metis
  from sast show "map_sum id JSON_stringify (parseSASTReports JSON_parse fs1 dir1)
          = map_sum id JSON_stringify (parseSASTReports JSON_parse fs2 dir2)" by simp
  from sca show "map_sum id JSON_stringify (parseSCAReports JSON_parse fs1 dir1)
          = map_sum id JSON_stringify (parseSCAReports JSON_parse fs2 dir2)" by simp
  from dast show "map_sum id JSON_stringify (parseDASTReports JSON_parse fs1 dir1)
          = map_sum id JSON_stringify (parseDASTReports JSON_parse fs2 dir2)" by simp
qed

theorem aggregators_deterministic_witness:
  "readFilesFromDirectory (report_fs ''reports/sca'' audit_files) ''reports/sca''
     = Inr [\<lparr> name_f = ''audit.txt'', path_f = ''reports/sca/audit.txt'',
              content_f = ''Found CVE-2022-9999 severity HIGH in module X'' \<rparr>,
            \<lparr> name_f = ''notes.md'', path_f = ''reports/sca/notes.md'',
              content_f = ''CVE-2000-1 is not read from here'' \<rparr>]
   \<and> readFilesFromDirectory (report_fs ''/tmp/in'' audit_files) ''/tmp/in''
     = Inr [\<lparr> name_f = ''audit.txt'', path_f = ''/tmp/in/audit.txt'',
              content_f = ''Found CVE-2022-9999 severity HIGH in module X'' \<rparr>,
            \<lparr> name_f = ''notes.md'', path_f = ''/tmp/in/notes.md'',
              content_f = ''CVE-2000-1 is not read from here'' \<rparr>]
   \<and> parseSCAReports example_JSON_parse (report_fs ''reports/sca'' audit_files) ''reports/sca''
     = Inr \<lparr> tool = ''SCA'',
             vulnerabilities =
               [txt_record ''CVE-2022-9999'' ''HIGH''
                  ''Found CVE-2022-9999 severity HIGH in module X''] \<rparr>
   \<and> parseSCAReports example_JSON_parse (report_fs ''/tmp/in'' audit_files) ''/tmp/in''
     = Inr \<lparr> tool = ''SCA'',
             vulnerabilities =
               [txt_record ''CVE-2022-9999'' ''HIGH''
                  ''Found CVE-2022-9999 severity HIGH in module X''] \<rparr>
   \<and> \<not> existsSync (report_fs ''reports/sca'' audit_files) ''reports/dast''
   \<and> parseDASTReports example_JSON_parse (report_fs ''reports/sca'' audit_files) ''reports/dast''
     = Inr \<lparr> tool = ''DAST'', vulnerabilities = [] \<rparr>"
proof -
  let ?files1 = "[\<lparr> name_f = ''audit.txt'', path_f = ''reports/sca/audit.txt'',
              content_f = ''Found CVE-2022-9999 severity HIGH in module X'' \<rparr>,
            \<lparr> name_f = ''notes.md'', path_f = ''reports/sca/notes.md'',
              content_f = ''CVE-2000-1 is not read from here'' \<rparr>]"
  let ?files2 = "[\<lparr> name_f = ''audit.txt'', path_f = ''/tmp/in/audit.txt'',
              content_f = ''Found CVE-2022-9999 severity HIGH in module X'' \<rparr>,
            \<lparr> name_f = ''notes.md'', path_f = ''/tmp/in/notes.md'',
              content_f = ''CVE-2000-1 is not read from here'' \<rparr>]"
  have a: "readFilesFromDirectory (report_fs ''reports/sca'' audit_files) ''reports/sca'' = Inr ?files1"
    by code_simp
  have b: "readFilesFromDirectory (report_fs ''/tmp/in'' audit_files) ''/tmp/in'' = Inr ?files2"
    by code_simp
  have c: "map file_view ?files1 = map file_view ?files2"
    by (simp add: file_view_def)
  have d: "parseSCAReports example_JSON_parse (report_fs ''reports/sca'' audit_files) ''reports/sca''
     = Inr \<lparr> tool = ''SCA'',
             vulnerabilities =
               [txt_record ''CVE-2022-9999'' ''HIGH''
                  ''Found CVE-2022-9999 severity HIGH in module X''] \<rparr>"
    by code_simp
  have e: "\<not> existsSync (report_fs ''reports/sca'' audit_files) ''reports/dast''"
    by code_simp
  from aggregators_deterministic
         [where ?fs1.0 = "report_fs ''reports/sca'' audit_files" and ?dir1.0 = "''reports/sca''"
            and ?files1.0 = ?files1
            and ?fs2.0 = "report_fs ''/tmp/in'' audit_files" and ?dir2.0 = "''/tmp/in''"
            and ?files2.0 = ?files2 and JSON_parse = example_JSON_parse
            and JSON_stringify = tool
            and fs = "report_fs ''reports/sca'' audit_files" and dir = "''reports/dast''"]
       a b c d e
  show ?thesis by auto
qed

text \<open>
  C9. \<^verbatim>\<open>typeof null\<close> is \<^verbatim>\<open>'object'\<close>, so a \<^verbatim>\<open>null\<close> entry of a \<^verbatim>\<open>via\<close> array passes the
  guard; reading its \<^verbatim>\<open>cve\<close> throws; and in the keyed shape a file with such an entry in
  the \<^verbatim>\<open>via\<close> array of any of its packages yields the empty array, whatever the other
  packages hold.
\<close>

theorem null_via_entry_empties_file:
  assumes "JSON_parse content = Some data"
    and "js_get data ''vulnerabilities'' = Some vulns"
    and "truthy vulns" and "\<not> isArray vulns"
    and "pkg \<in> set (Object_keys vulns)"
    and "js_get_opt (js_get_opt vulns pkg) ''via'' = JArr vs"
    and "JNull \<in> set vs"
  shows "typeof_object JNull
         \<and> sca_via_record pkg (js_get_opt vulns pkg) JNull = None
         \<and> parseSCAJSON_try data = None
         \<and> parseSCAJSON JSON_parse content = []"
proof -
  have v: "\<not> nullish vulns" using assms(3) by (cases vulns) simp_all
  have a: "\<not> nullish (js_get_opt vulns pkg)"
    using assms(6) by (auto simp: js_get_opt_def split: if_splits)
  have g1: "js_get vulns pkg = Some (js_get_opt vulns pkg)"
    using v by (simp add: js_get_def js_get_opt_def)
  have g2: "js_get (js_get_opt vulns pkg) ''via'' = Some (JArr vs)"
    using a assms(6) by (simp add: js_get_def js_get_opt_def)
  have "JNull \<in> set (filter typeof_object vs)" using assms(7) by simp
  then have "those (map (sca_via_record pkg (js_get_opt vulns pkg)) (filter typeof_object vs)) = None"
    unfolding those_None_iff using sca_via_record_null by blast
  then have "sca_package_records vulns pkg = None"
    by (simp add: sca_package_records_def g1 g2)
  with assms(5) have "collect (sca_package_records vulns) (Object_keys vulns) = None"
    unfolding collect_None_iff by blast
  then have t: "parseSCAJSON_try data = None"
    using assms(2-4) by (simp add: keyed_shape_collect)
  then have "parseSCAJSON JSON_parse content = []"
    using assms(1) by (simp add: parseSCAJSON_def)
  with t sca_via_record_null show ?thesis by simp
qed

theorem null_via_entry_empties_file_witness:
  "example_JSON_parse null_via_text = Some null_via_doc
   \<and> parseSCAJSON example_JSON_parse null_via_text = []
   \<and> example_JSON_parse empty_via_text = Some empty_via_doc
   \<and> parseSCAJSON example_JSON_parse empty_via_text
       = [\<lparr> id_v = JStr ''CVE-2020-1'', name_v = JStr ''Dependency vulnerability'',
            severity_v = JStr ''UNKNOWN'', file_v = JStr ''a'',
            description_v = JStr ''See package for details'',
            recommendation_v = JStr ''No fix available'' \<rparr>]"
proof -
  let ?vulns = "JObj [(''a'', JObj [(''via'', JArr [JObj [(''cve'', JStr ''CVE-2020-1'')]])]),
                      (''b'', JObj [(''via'', JArr [JNull])])]"
  have a: "example_JSON_parse null_via_text = Some null_via_doc" by code_simp
  have b: "js_get null_via_doc ''vulnerabilities'' = Some ?vulns"
    by (simp add: null_via_doc_def js_get_def)
  have c: "truthy ?vulns" "\<not> isArray ?vulns" "''b'' \<in> set (Object_keys ?vulns)" by simp_all
  have d: "js_get_opt (js_get_opt ?vulns ''b'') ''via'' = JArr [JNull]"
    by (simp add: js_get_opt_def)
  have e: "JNull \<in> set [JNull]" by simp
  have f: "example_JSON_parse empty_via_text = Some empty_via_doc" by code_simp
  have g: "parseSCAJSON example_JSON_parse empty_via_text
       = [\<lparr> id_v = JStr ''CVE-2020-1'', name_v = JStr ''Dependency vulnerability'',
            severity_v = JStr ''UNKNOWN'', file_v = JStr ''a'',
            description_v = JStr ''See package for details'',
            recommendation_v = JStr ''No fix available'' \<rparr>]" by code_simp
  from null_via_entry_empties_file [of example_JSON_parse null_via_text null_via_doc ?vulns
                                       "''b''" "[JNull]", OF a b c d e]
       a f g
  show ?thesis by simp
qed

text \<open>
  C10. \<^verbatim>\<open>parseHTML\<close> returns as many records as the shorter of the two match lists has
  entries; the \<open>i\<close>-th record is made of the \<open>i\<close>-th CWE match and the \<open>i\<close>-th severity
  word, upper-cased; when either list is empty there is no record.
\<close>

theorem html_records_pairwise:
  "\<exists>vs. parseHTML content = Some vs
     \<and> length vs = min (length (matchAll_CWE content)) (length (matchAll_severity content))
     \<and> (\<forall>i < length vs.
           vs ! i = html_record (matchAll_CWE content ! i) (matchAll_severity content ! i)
           \<and> id_v (vs ! i) = JStr (''CWE-'' @ matchAll_CWE content ! i)
           \<and> severity_v (vs ! i) = JStr (toUpperCase (matchAll_severity content ! i)))
     \<and> (matchAll_CWE content = [] \<or> matchAll_severity content = [] \<longrightarrow> vs = [])"
proof -
  let ?cwes = "matchAll_CWE content" and ?sevs = "matchAll_severity content"
  let ?vs = "map (\<lambda>(c, w). html_record c w) (zip ?cwes ?sevs)"
  have "parseHTML content = Some ?vs" by (rule parseHTML_zip)
  moreover have "length ?vs = min (length ?cwes) (length ?sevs)" by simp
  moreover have "?vs ! i = html_record (?cwes ! i) (?sevs ! i)
           \<and> id_v (?vs ! i) = JStr (''CWE-'' @ ?cwes ! i)
           \<and> severity_v (?vs ! i) = JStr (toUpperCase (?sevs ! i))" if "i < length ?vs" for i
  proof -
    from that have i: "i < length ?cwes" "i < length ?sevs" by simp_all
    then have "?sevs ! i \<in> set ?sevs" by simp
    then have "classify_spec (?sevs ! i) = toUpperCase (?sevs ! i)"
      by (intro classify_spec_word matchAll_severity_word)
    with i show ?thesis by (simp add: html_record_def)
  qed
  moreover have "?cwes = [] \<or> ?sevs = [] \<longrightarrow> ?vs = []" by auto
  ultimately show ?thesis by blast
qed

theorem html_records_pairwise_witness:
  "matchAll_CWE ''<td>CWE-79</td><td>High</td> cwe-12x critical CWE- CWE-7'' = [''79'', ''12'', ''7'']
   \<and> matchAll_severity ''<td>CWE-79</td><td>High</td> cwe-12x critical CWE- CWE-7''
       = [''High'', ''critical'']
   \<and> parseHTML ''<td>CWE-79</td><td>High</td> cwe-12x critical CWE- CWE-7''
       = Some [html_record ''79'' ''High'', html_record ''12'' ''critical'']
   \<and> map severity_v [html_record ''79'' ''High'', html_record ''12'' ''critical'']
       = [JStr ''HIGH'', JStr ''CRITICAL'']
   \<and> matchAll_severity ''CWE-79 and CWE-89'' = []
   \<and> parseHTML ''CWE-79 and CWE-89'' = Some []"
proof -
  have a: "matchAll_CWE ''<td>CWE-79</td><td>High</td> cwe-12x critical CWE- CWE-7'' = [''79'', ''12'', ''7'']"
    by code_simp
  have b: "matchAll_severity ''<td>CWE-79</td><td>High</td> cwe-12x critical CWE- CWE-7''
       = [''High'', ''critical'']"
    by code_simp
  have c: "map severity_v [html_record ''79'' ''High'', html_record ''12'' ''critical'']
       = [JStr ''HIGH'', JStr ''CRITICAL'']"
    by code_simp
  have d: "matchAll_severity ''CWE-79 and CWE-89'' = []" by code_simp
  from html_records_pairwise [of "''<td>CWE-79</td><td>High</td> cwe-12x critical CWE- CWE-7''"]
  obtain vs where 1: "parseHTML ''<td>CWE-79</td><td>High</td> cwe-12x critical CWE- CWE-7'' = Some vs"
    and 2: "length vs = 2"
    and 3: "\<forall>i < length vs. vs ! i = html_record ([''79'', ''12'', ''7''] ! i) ([''High'', ''critical''] ! i)"
    unfolding a b by auto
  from 2 3 have "vs ! 0 = html_record ''79'' ''High''" "vs ! 1 = html_record ''12'' ''critical''"
    by auto
  with 2 have "vs = [html_record ''79'' ''High'', html_record ''12'' ''critical'']"
    by (cases vs; cases "tl vs") auto
  moreover from html_records_pairwise [of "''CWE-79 and CWE-89''"] d
  have "parseHTML ''CWE-79 and CWE-89'' = Some []" by auto
  ultimately show ?thesis using 1 a b c d by simp
qed

end
